theory Spec2Isabelle
  imports Complex_Main "HOL-Library.Char_ord" "HOL-Library.List_Lexorder" "HOL-Library.Product_Lexorder"
begin

section \<open>Text and character classes\<close>

text \<open>
  The program works on Python \<open>str\<close> values. A text is modelled as a \<open>string\<close>, a
  list of 8-bit characters read as the code points U+0000 to U+00FF; code points
  beyond that range are outside the model. The character classes below are the ones
  Python's \<open>re\<close> module and \<open>str\<close> methods use on that range.
\<close>

definition is_digit :: "char \<Rightarrow> bool" where
  \<comment> \<open>\<open>\d\<close>: a decimal digit.\<close>
  "is_digit c = (c \<in> set ''0123456789'')"

definition is_space :: "char \<Rightarrow> bool" where
  \<comment> \<open>\<open>\s\<close> and \<open>str.isspace\<close>: tab, line feed, vertical tab, form feed, carriage
     return, the separators U+001C to U+001F, space, U+0085 and U+00A0.\<close>
  "is_space c = (c \<in> set [CHR 0x09, CHR 0x0A, CHR 0x0B, CHR 0x0C, CHR 0x0D,
      CHR 0x1C, CHR 0x1D, CHR 0x1E, CHR 0x1F, CHR 0x20, CHR 0x85, CHR 0xA0])"

definition is_word :: "char \<Rightarrow> bool" where
  \<comment> \<open>\<open>\w\<close>: \<open>str.isalnum\<close> or the underscore.\<close>
  "is_word c = (let n = (of_char c :: nat) in
      (48 \<le> n \<and> n \<le> 57) \<or> (65 \<le> n \<and> n \<le> 90) \<or> n = 95 \<or> (97 \<le> n \<and> n \<le> 122) \<or>
      n = 170 \<or> n = 178 \<or> n = 179 \<or> n = 181 \<or> n = 185 \<or> n = 186 \<or>
      (188 \<le> n \<and> n \<le> 190) \<or> (192 \<le> n \<and> n \<le> 214) \<or> (216 \<le> n \<and> n \<le> 246) \<or>
      248 \<le> n)"

definition is_upper :: "char \<Rightarrow> bool" where
  \<comment> \<open>The characters that have a lower-case partner: A to Z, and U+00C0 to U+00DE
     without the multiplication sign.\<close>
  "is_upper c = (let n = (of_char c :: nat) in
      (65 \<le> n \<and> n \<le> 90) \<or> (192 \<le> n \<and> n \<le> 222 \<and> n \<noteq> 215))"

definition to_lower :: "char \<Rightarrow> char" where
  \<comment> \<open>The lower-case mapping of one character: the partner of an upper-case
     character is 32 code points above it, that is, the same bits with the bit of
     value 32 set.\<close>
  "to_lower c =
     (if is_upper c
      then (case c of Char b0 b1 b2 b3 b4 b5 b6 b7 \<Rightarrow> Char b0 b1 b2 b3 b4 True b6 b7)
      else c)"

definition str_lower :: "string \<Rightarrow> string" where
  "str_lower s = map to_lower s"

fun py_int :: "string \<Rightarrow> nat" where
  \<comment> \<open>\<open>int(s)\<close> on a text of decimal digits with optional blanks around it.\<close>
  "py_int s = foldl (\<lambda>n c. if is_digit c then 10 * n + (of_char c - 48) else n) 0 s"

fun digit_char :: "nat \<Rightarrow> char" where
  "digit_char n = ''0123456789'' ! (n mod 10)"

function py_str :: "nat \<Rightarrow> string" where
  \<comment> \<open>\<open>str(n)\<close> of a non-negative integer: its decimal digits, no padding.\<close>
  "py_str n = (if n < 10 then [digit_char n] else py_str (n div 10) @ [digit_char n])"
  by pat_completeness auto
termination
  by (relation "measure id") auto

declare py_str.simps [simp del]

fun py_join :: "string \<Rightarrow> string list \<Rightarrow> string" where
  \<comment> \<open>\<open>sep.join(xs)\<close>.\<close>
  "py_join sep [] = []"
| "py_join sep [x] = x"
| "py_join sep (x # y # ys) = x @ sep @ py_join sep (y # ys)"

fun py_split_acc :: "string \<Rightarrow> string \<Rightarrow> string list" where
  "py_split_acc w [] = (if w = [] then [] else [w])"
| "py_split_acc w (c # cs) =
     (if is_space c then (if w = [] then py_split_acc [] cs else w # py_split_acc [] cs)
      else py_split_acc (w @ [c]) cs)"

definition py_split :: "string \<Rightarrow> string list" where
  \<comment> \<open>\<open>s.split()\<close>: the maximal runs of non-whitespace characters.\<close>
  "py_split s = py_split_acc [] s"

definition py_strip :: "string \<Rightarrow> string" where
  \<comment> \<open>\<open>s.strip()\<close>.\<close>
  "py_strip s = rev (dropWhile is_space (rev (dropWhile is_space s)))"

section \<open>Regular expressions, as Python's backtracking matcher reads them\<close>

text \<open>
  The fragment of \<open>re\<close> the program uses: character classes, sequence, alternative,
  the greedy option \<open>r?\<close>, and the quantifiers \<open>{m,n}\<close>, \<open>+\<close> (greedy) and \<open>+?\<close> (lazy)
  applied to a character class. \<open>matches r s\<close> lists, in the order in which the
  backtracking matcher tries them, the texts that remain after each way of matching
  \<open>r\<close> at the start of \<open>s\<close>; the matcher reports the first.
\<close>

datatype regex =
    Cls "char \<Rightarrow> bool"
  | Seq regex regex
  | Alt regex regex
  | Opt regex
  | Rep nat nat "char \<Rightarrow> bool"
  | PlusG "char \<Rightarrow> bool"
  | PlusL "char \<Rightarrow> bool"

fun rep_greedy :: "nat \<Rightarrow> nat \<Rightarrow> (char \<Rightarrow> bool) \<Rightarrow> string \<Rightarrow> string list" where
  "rep_greedy lo hi p [] = (if lo = 0 then [[]] else [])"
| "rep_greedy lo hi p (c # cs) =
     (if 0 < hi \<and> p c then rep_greedy (lo - 1) (hi - 1) p cs else []) @
     (if lo = 0 then [c # cs] else [])"

fun plus_greedy :: "(char \<Rightarrow> bool) \<Rightarrow> string \<Rightarrow> string list" where
  "plus_greedy p [] = []"
| "plus_greedy p (c # cs) = (if p c then plus_greedy p cs @ [cs] else [])"

fun plus_lazy :: "(char \<Rightarrow> bool) \<Rightarrow> string \<Rightarrow> string list" where
  "plus_lazy p [] = []"
| "plus_lazy p (c # cs) = (if p c then cs # plus_lazy p cs else [])"

fun matches :: "regex \<Rightarrow> string \<Rightarrow> string list" where
  "matches (Cls p) s = (case s of [] \<Rightarrow> [] | c # cs \<Rightarrow> if p c then [cs] else [])"
| "matches (Seq a b) s = concat (map (matches b) (matches a s))"
| "matches (Alt a b) s = matches a s @ matches b s"
| "matches (Opt a) s = matches a s @ [s]"
| "matches (Rep lo hi p) s = rep_greedy lo hi p s"
| "matches (PlusG p) s = plus_greedy p s"
| "matches (PlusL p) s = plus_lazy p s"

definition lit :: "char \<Rightarrow> regex" where
  \<comment> \<open>A literal character.\<close>
  "lit c = Cls (\<lambda>x. x = c)"

definition lit_ci :: "char \<Rightarrow> regex" where
  \<comment> \<open>A literal character under \<open>re.IGNORECASE\<close>.\<close>
  "lit_ci c = Cls (\<lambda>x. to_lower x = to_lower c)"

definition one_of :: "string \<Rightarrow> regex" where
  \<comment> \<open>A bracket class \<open>[...]\<close> given by its members.\<close>
  "one_of cs = Cls (\<lambda>x. x \<in> set cs)"

fun seqs :: "regex list \<Rightarrow> regex" where
  \<comment> \<open>A sequence of two or more items.\<close>
  "seqs [] = Opt (Cls (\<lambda>_. False))"
| "seqs [r] = r"
| "seqs (r # rs) = Seq r (seqs rs)"

definition word :: "string \<Rightarrow> regex" where
  \<comment> \<open>A literal text.\<close>
  "word w = seqs (map lit w)"

definition word_ci :: "string \<Rightarrow> regex" where
  \<comment> \<open>A literal text under \<open>re.IGNORECASE\<close>.\<close>
  "word_ci w = seqs (map lit_ci w)"

type_synonym 'g matcher = "string \<Rightarrow> ('g \<times> string) option"

definition re_match :: "regex \<Rightarrow> string matcher" where
  \<comment> \<open>The match of \<open>r\<close> at the start of \<open>s\<close>: the matched text and the text after it.\<close>
  "re_match r s =
     (case matches r s of [] \<Rightarrow> None
      | x # _ \<Rightarrow> Some (take (length s - length x) s, x))"

definition re_match_group :: "regex \<Rightarrow> regex \<Rightarrow> string matcher" where
  \<comment> \<open>The match of \<open>(g)k\<close> at the start of \<open>s\<close>: the text of group 1 and the text
     after the whole match.\<close>
  "re_match_group g k s =
     (case concat (map (\<lambda>x. map (\<lambda>y. (take (length s - length x) s, y)) (matches k x)) (matches g s)) of
        [] \<Rightarrow> None
      | m # _ \<Rightarrow> Some m)"

fun re_search :: "'g matcher \<Rightarrow> string \<Rightarrow> (string \<times> 'g \<times> string) option" where
  \<comment> \<open>The leftmost match: the text before it, what the matcher reports, the text after.\<close>
  "re_search m [] = (case m [] of None \<Rightarrow> None | Some (g, r) \<Rightarrow> Some ([], g, r))"
| "re_search m (c # cs) =
     (case m (c # cs) of
        Some (g, r) \<Rightarrow> Some ([], g, r)
      | None \<Rightarrow> (case re_search m cs of None \<Rightarrow> None | Some (b, g, r) \<Rightarrow> Some (c # b, g, r)))"

function re_finditer :: "'g matcher \<Rightarrow> string \<Rightarrow> (string \<times> 'g) list \<times> string" where
  \<comment> \<open>All non-overlapping matches from left to right, each with the text between the
     previous match and itself, and the text after the last one. The scan goes on
     behind each match; it stops at a match that leaves the whole text to scan
     (an empty match at the scan position), which no pattern of this program has.\<close>
  "re_finditer m s =
     (case re_search m s of
        None \<Rightarrow> ([], s)
      | Some (b, g, r) \<Rightarrow>
          if length r < length s
          then (case re_finditer m r of (ms, t) \<Rightarrow> ((b, g) # ms, t))
          else ([(b, g)], r))"
  by pat_completeness auto
termination
  by (relation "measure (\<lambda>(m, s). length s)") auto

declare re_finditer.simps [simp del]

definition re_findall :: "string matcher \<Rightarrow> string \<Rightarrow> string list" where
  \<comment> \<open>\<open>re.findall\<close>: what each match reports.\<close>
  "re_findall m s = map snd (fst (re_finditer m s))"

definition re_split :: "string matcher \<Rightarrow> string \<Rightarrow> string list" where
  \<comment> \<open>\<open>re.split\<close> for a pattern without groups: the texts between the matches.\<close>
  "re_split m s = (case re_finditer m s of (ms, t) \<Rightarrow> map fst ms @ [t])"

definition re_split_group :: "string matcher \<Rightarrow> string \<Rightarrow> string list" where
  \<comment> \<open>\<open>re.split\<close> for a pattern with one group: the texts between the matches, each
     followed by the text of the group.\<close>
  "re_split_group m s = (case re_finditer m s of (ms, t) \<Rightarrow> concat (map (\<lambda>(b, g). [b, g]) ms) @ [t])"

definition re_sub_empty :: "string matcher \<Rightarrow> string \<Rightarrow> string" where
  \<comment> \<open>\<open>re.sub(pattern, '', s)\<close>: the text with every match removed.\<close>
  "re_sub_empty m s = (case re_finditer m s of (ms, t) \<Rightarrow> concat (map fst ms) @ t)"


section \<open>Timestamps: \<open>pd.to_datetime\<close> with a format\<close>

record datetime =
  dt_year :: nat
  dt_month :: nat
  dt_day :: nat
  dt_hour :: nat
  dt_minute :: nat

datatype directive = D_d | D_m | D_y | D_Y | D_H | D_I | D_M | D_p

datatype fmt_item = Dir directive | Lit char | Ws

definition directive_of :: "char \<Rightarrow> directive option" where
  \<comment> \<open>The directives the program's formats use; the others are not modelled.\<close>
  "directive_of c =
     (if c = CHR ''d'' then Some D_d else if c = CHR ''m'' then Some D_m
      else if c = CHR ''y'' then Some D_y else if c = CHR ''Y'' then Some D_Y
      else if c = CHR ''H'' then Some D_H else if c = CHR ''I'' then Some D_I
      else if c = CHR ''M'' then Some D_M else if c = CHR ''p'' then Some D_p
      else None)"

fun compile_format :: "bool \<Rightarrow> string \<Rightarrow> fmt_item list option" where
  \<comment> \<open>A format string as the items of its regular expression: each run of whitespace
     is one \<open>\s+\<close>, \<open>%x\<close> is the expression of directive \<open>x\<close>, any other character is
     itself. The flag says that the previous character was whitespace.\<close>
  "compile_format ws [] = Some []"
| "compile_format ws (c # cs) =
     (if c = CHR ''%'' then
        (case cs of
           [] \<Rightarrow> None
         | d # ds \<Rightarrow>
             (case directive_of d of
                None \<Rightarrow> None
              | Some x \<Rightarrow> map_option ((#) (Dir x)) (compile_format False ds)))
      else if is_space c then
        (if ws then compile_format True cs else map_option ((#) Ws) (compile_format True cs))
      else map_option ((#) (Lit c)) (compile_format False cs))"

fun directive_re :: "directive \<Rightarrow> regex" where
  \<comment> \<open>The expressions of the directives, alternatives in the library's order.\<close>
  "directive_re D_d =
     Alt (Seq (lit CHR ''3'') (one_of ''01''))
      (Alt (Seq (one_of ''12'') (Cls is_digit))
        (Alt (Seq (lit CHR ''0'') (one_of ''123456789''))
          (Alt (one_of ''123456789'') (Seq (lit CHR '' '') (one_of ''123456789'')))))"
| "directive_re D_m =
     Alt (Seq (lit CHR ''1'') (one_of ''012''))
      (Alt (Seq (lit CHR ''0'') (one_of ''123456789'')) (one_of ''123456789''))"
| "directive_re D_y = Seq (Cls is_digit) (Cls is_digit)"
| "directive_re D_Y = Seq (Cls is_digit) (Seq (Cls is_digit) (Seq (Cls is_digit) (Cls is_digit)))"
| "directive_re D_H =
     Alt (Seq (lit CHR ''2'') (one_of ''0123''))
      (Alt (Seq (one_of ''01'') (Cls is_digit)) (Cls is_digit))"
| "directive_re D_I =
     Alt (Seq (lit CHR ''1'') (one_of ''012''))
      (Alt (Seq (lit CHR ''0'') (one_of ''123456789'')) (one_of ''123456789''))"
| "directive_re D_M = Alt (Seq (one_of ''012345'') (Cls is_digit)) (Cls is_digit)"
| "directive_re D_p = Alt (word_ci ''am'') (word_ci ''pm'')"

fun item_re :: "fmt_item \<Rightarrow> regex" where
  "item_re (Dir d) = directive_re d"
| "item_re (Lit c) = lit_ci c"
| "item_re Ws = PlusG is_space"

fun fmt_matches :: "fmt_item list \<Rightarrow> string \<Rightarrow> ((directive \<times> string) list \<times> string) list" where
  \<comment> \<open>The ways of matching a format's expression at the start of a text, in the
     matcher's order: the texts of the directives' groups and the text that remains.\<close>
  "fmt_matches [] s = [([], s)]"
| "fmt_matches (i # is) s =
     concat (map (\<lambda>r. map (\<lambda>(caps, r').
         ((case i of Dir d \<Rightarrow> [(d, take (length s - length r) s)] | _ \<Rightarrow> []) @ caps, r'))
       (fmt_matches is r)) (matches (item_re i) s))"

definition found :: "(directive \<times> string) list \<Rightarrow> directive \<Rightarrow> string" where
  \<comment> \<open>\<open>found_dict.get(d, '')\<close>.\<close>
  "found caps d = (case map_of caps d of None \<Rightarrow> [] | Some t \<Rightarrow> t)"

fun set_field :: "(directive \<times> string) list \<Rightarrow> datetime \<Rightarrow> directive \<times> string \<Rightarrow> datetime" where
  "set_field caps dt (D_y, t) =
     dt\<lparr>dt_year := (if py_int t \<le> 68 then py_int t + 2000 else py_int t + 1900)\<rparr>"
| "set_field caps dt (D_Y, t) = dt\<lparr>dt_year := py_int t\<rparr>"
| "set_field caps dt (D_m, t) = dt\<lparr>dt_month := py_int t\<rparr>"
| "set_field caps dt (D_d, t) = dt\<lparr>dt_day := py_int t\<rparr>"
| "set_field caps dt (D_H, t) = dt\<lparr>dt_hour := py_int t\<rparr>"
| "set_field caps dt (D_I, t) =
     (let hour = py_int t; ampm = str_lower (found caps D_p) in
      dt\<lparr>dt_hour :=
        (if ampm = [] \<or> ampm = ''am'' then (if hour = 12 then 0 else hour)
         else if ampm = ''pm'' then (if hour \<noteq> 12 then hour + 12 else hour)
         else hour)\<rparr>)"
| "set_field caps dt (D_M, t) = dt\<lparr>dt_minute := py_int t\<rparr>"
| "set_field caps dt (D_p, t) = dt"

definition is_leap :: "nat \<Rightarrow> bool" where
  "is_leap y = (y mod 4 = 0 \<and> (y mod 100 \<noteq> 0 \<or> y mod 400 = 0))"

definition month_lengths :: "nat \<Rightarrow> nat list" where
  "month_lengths y = [31, if is_leap y then 29 else 28, 31, 30, 31, 30, 31, 31, 30, 31, 30, 31]"

definition days_in_month :: "nat \<Rightarrow> nat \<Rightarrow> nat" where
  \<comment> \<open>For a month of 1 to 12.\<close>
  "days_in_month y m = month_lengths y ! (m - 1)"

definition valid_date :: "datetime \<Rightarrow> bool" where
  \<comment> \<open>\<open>datetime.date(year, month, day)\<close> does not raise.\<close>
  "valid_date dt =
     (1 \<le> dt_year dt \<and> dt_year dt \<le> 9999 \<and> 1 \<le> dt_month dt \<and> dt_month dt \<le> 12 \<and>
      1 \<le> dt_day dt \<and> dt_day dt \<le> days_in_month (dt_year dt) (dt_month dt))"

definition to_datetime :: "string \<Rightarrow> string \<Rightarrow> datetime option" where
  \<comment> \<open>\<open>pd.to_datetime(s, format=fmt)\<close>; \<open>None\<close> stands for the \<open>ValueError\<close> it raises.
     The expression of the format is matched at the start of the text (first way
     only), the match must reach the end of the text, and the fields must be a date
     of the calendar. The limits of the library's timestamp range are not modelled.\<close>
  "to_datetime s fmt =
     (case compile_format False fmt of
        None \<Rightarrow> None
      | Some items \<Rightarrow>
          (case fmt_matches items s of
             [] \<Rightarrow> None
           | (caps, r) # _ \<Rightarrow>
               if r \<noteq> [] then None
               else (let dt = foldl (set_field caps)
                        \<lparr>dt_year = 1900, dt_month = 1, dt_day = 1, dt_hour = 0, dt_minute = 0\<rparr> caps
                     in if valid_date dt then Some dt else None)))"

definition days_before_year :: "nat \<Rightarrow> nat" where
  "days_before_year y = (y - 1) * 365 + (y - 1) div 4 - (y - 1) div 100 + (y - 1) div 400"

definition days_before_month :: "nat \<Rightarrow> nat \<Rightarrow> nat" where
  "days_before_month y m = sum_list (take (m - 1) (month_lengths y))"

definition weekday :: "datetime \<Rightarrow> nat" where
  \<comment> \<open>The day of the week, Monday = 0, from the day's ordinal in the calendar.\<close>
  "weekday dt =
     (days_before_year (dt_year dt) + days_before_month (dt_year dt) (dt_month dt) + dt_day dt + 6) mod 7"

definition day_order :: "string list" where
  "day_order = [''Monday'', ''Tuesday'', ''Wednesday'', ''Thursday'', ''Friday'', ''Saturday'', ''Sunday'']"

definition month_order :: "string list" where
  "month_order = [''January'', ''February'', ''March'', ''April'', ''May'', ''June'',
     ''July'', ''August'', ''September'', ''October'', ''November'', ''December'']"

definition day_name_of :: "datetime \<Rightarrow> string" where
  \<comment> \<open>\<open>.dt.day_name()\<close>.\<close>
  "day_name_of dt = day_order ! weekday dt"

definition month_name_of :: "datetime \<Rightarrow> string" where
  \<comment> \<open>\<open>.dt.month_name()\<close>; the month of a parsed timestamp is 1 to 12.\<close>
  "month_name_of dt = month_order ! (dt_month dt - 1)"


section \<open>The parser: \<open>preprocess\<close> (app.py)\<close>

definition pattern :: regex where
  \<comment> \<open>\<open>\d{1,2}/\d{1,2}/\d{2,4},\s\d{1,2}:\d{2}(?:\s?[APap][Mm])?\s-\s\<close>\<close>
  "pattern = seqs [Rep 1 2 is_digit, lit CHR ''/'', Rep 1 2 is_digit, lit CHR ''/'',
     Rep 2 4 is_digit, lit CHR '','', Cls is_space, Rep 1 2 is_digit, lit CHR '':'',
     Rep 2 2 is_digit, Opt (seqs [Opt (Cls is_space), one_of ''APap'', one_of ''Mm'']),
     Cls is_space, lit CHR ''-'', Cls is_space]"

definition user_pattern :: "string matcher" where
  \<comment> \<open>\<open>([\w\W]+?):\s\<close>\<close>
  "user_pattern = re_match_group (PlusL (\<lambda>c. is_word c \<or> \<not> is_word c)) (Seq (lit CHR '':'') (Cls is_space))"

datatype py_error = AttributeError | ValueError

record row =
  date :: datetime
  user :: string
  message :: string
  only_date :: "nat \<times> nat \<times> nat"
  year :: nat
  month_num :: nat
  month :: string
  day :: nat
  day_name :: string
  hour :: nat
  minute :: nat
  period :: string

definition diagnostic :: "string \<Rightarrow> string" where
  "diagnostic date_str = ''Could not parse date: '' @ date_str @
     ''. Please ensure your chat export is in a standard format.''"

definition parse_date :: "string \<Rightarrow> datetime option \<times> string list" where
  \<comment> \<open>One round of the loop over \<open>df['message_date']\<close>: the value appended to
     \<open>parsed_dates\<close> (\<open>None\<close> is \<open>pd.NaT\<close>) and the messages given to \<open>st.error\<close>.\<close>
  "parse_date date_str =
     (case to_datetime date_str ''%d/%m/%y, %I:%M %p - '' of
        Some dt \<Rightarrow> (Some dt, [])
      | None \<Rightarrow>
     (case to_datetime date_str ''%d/%m/%y, %H:%M - '' of
        Some dt \<Rightarrow> (Some dt, [])
      | None \<Rightarrow>
     (case to_datetime date_str ''%d/%m/%Y, %I:%M %p - '' of
        Some dt \<Rightarrow> (Some dt, [])
      | None \<Rightarrow>
     (case to_datetime date_str ''%d/%m/%Y, %H:%M - '' of
        Some dt \<Rightarrow> (Some dt, [])
      | None \<Rightarrow> (None, [diagnostic date_str])))))"

definition split_user :: "string \<Rightarrow> string \<times> string" where
  \<comment> \<open>One round of the loop over \<open>df['user_message']\<close>: the values appended to
     \<open>users\<close> and \<open>messages_cleaned\<close>. The list that \<open>re.split\<close> returns is never
     empty.\<close>
  "split_user msg =
     (let entry = re_split_group user_pattern msg in
      if drop 1 entry \<noteq> [] then (entry ! 1, py_join '' '' (drop 2 entry))
      else (''group_notification'', entry ! 0))"

definition period_of :: "nat \<Rightarrow> string" where
  \<comment> \<open>One round of the loop that builds \<open>period\<close>.\<close>
  "period_of h =
     (if h = 23 then py_str h @ ''-'' @ ''00''
      else if h = 0 then ''00'' @ ''-'' @ py_str (h + 1)
      else py_str h @ ''-'' @ py_str (h + 1))"

definition make_row :: "string \<times> datetime \<Rightarrow> row" where
  "make_row md =
     (let dt = snd md; um = split_user (fst md) in
      \<lparr>date = dt, user = fst um, message = snd um,
       only_date = (dt_year dt, dt_month dt, dt_day dt),
       year = dt_year dt, month_num = dt_month dt, month = month_name_of dt,
       day = dt_day dt, day_name = day_name_of dt,
       hour = dt_hour dt, minute = dt_minute dt, period = period_of (dt_hour dt)\<rparr>)"

definition preprocess :: "string \<Rightarrow> py_error + (row list \<times> string list)" where
  \<comment> \<open>The data frame that \<open>preprocess\<close> returns, as the list of its rows, and the
     messages it gave to \<open>st.error\<close>; or the exception it raises. A data frame needs
     columns of one length. The column \<open>date\<close> made from an empty list is not of a
     datetime type, so that \<open>.dt\<close> raises \<open>AttributeError\<close>; made from a non-empty list
     of timestamps and \<open>NaT\<close> it is, also when \<open>dropna\<close> leaves no row.\<close>
  "preprocess data =
     (let messages = drop 1 (re_split (re_match pattern) data);
          dates = re_findall (re_match pattern) data
      in if length messages \<noteq> length dates then Inl ValueError
         else
           (let parsed = map parse_date dates;
                parsed_dates = map fst parsed;
                errors = concat (map snd parsed);
                kept = List.map_filter (\<lambda>(m, d). map_option (Pair m) d) (zip messages parsed_dates)
            in if parsed_dates = [] then Inl AttributeError
               else Inr (map make_row kept, errors)))"


section \<open>The aggregates (helper.py)\<close>

text \<open>
  A data frame is the list of its rows, a series or table the list of its entries in
  their order. A cell that pandas leaves without a value is \<open>NaN\<close>.
\<close>

datatype cell = Count nat | NaN

definition media_pattern :: "string matcher" where
  \<comment> \<open>\<open><Media omitted>\<close> with \<open>case=False\<close>\<close>
  "media_pattern = re_match (word_ci ''<Media omitted>'')"

definition url_pattern :: "string matcher" where
  \<comment> \<open>\<open>(https?://\S+|www\.\S+)\<close>\<close>
  "url_pattern = re_match
     (Alt (seqs [lit CHR ''h'', lit CHR ''t'', lit CHR ''t'', lit CHR ''p'', Opt (lit CHR ''s''),
                 lit CHR '':'', lit CHR ''/'', lit CHR ''/'', PlusG (\<lambda>c. \<not> is_space c)])
          (seqs [lit CHR ''w'', lit CHR ''w'', lit CHR ''w'', lit CHR ''.'', PlusG (\<lambda>c. \<not> is_space c)]))"

definition punct_pattern :: "string matcher" where
  \<comment> \<open>\<open>[^\w\s]\<close>\<close>
  "punct_pattern = re_match (Cls (\<lambda>c. \<not> is_word c \<and> \<not> is_space c))"

definition str_contains :: "string matcher \<Rightarrow> string \<Rightarrow> bool" where
  \<comment> \<open>\<open>.str.contains(pat)\<close> on one text: \<open>re.search\<close> finds a match.\<close>
  "str_contains m s = (re_search m s \<noteq> None)"

definition fetch_stats :: "string \<Rightarrow> row list \<Rightarrow> nat \<times> nat \<times> nat \<times> nat" where
  "fetch_stats selected_user df0 =
     (let df = (if selected_user \<noteq> ''Overall'' then filter (\<lambda>r. user r = selected_user) df0 else df0);
          num_messages = length df;
          words = concat (map (\<lambda>r. py_split (message r)) df);
          num_media_messages = length (filter (\<lambda>r. str_contains media_pattern (message r)) df);
          links = concat (map (\<lambda>r. re_findall url_pattern (message r)) df)
      in (num_messages, length words, num_media_messages, length links))"

definition first_seen :: "'a list \<Rightarrow> 'a list" where
  \<comment> \<open>The distinct values in the order of their first occurrence.\<close>
  "first_seen xs = rev (remdups (rev xs))"

definition counter :: "'a list \<Rightarrow> ('a \<times> nat) list" where
  \<comment> \<open>\<open>Counter(xs)\<close>: each distinct value with the number of its occurrences, in the
     order of first occurrence.\<close>
  "counter xs = map (\<lambda>x. (x, count_list xs x)) (first_seen xs)"

definition most_common :: "nat \<Rightarrow> ('a \<times> nat) list \<Rightarrow> ('a \<times> nat) list" where
  \<comment> \<open>\<open>.most_common(n)\<close>: by falling count, equal counts in their order; the first \<open>n\<close>.\<close>
  "most_common n c = take n (sort_key (\<lambda>e. - int (snd e)) c)"

definition value_counts :: "'a list \<Rightarrow> ('a \<times> nat) list" where
  \<comment> \<open>\<open>.value_counts()\<close>: by falling count, equal counts in their order.\<close>
  "value_counts xs = sort_key (\<lambda>e. - int (snd e)) (counter xs)"

definition most_busy_users :: "row list \<Rightarrow> (string \<times> nat) list \<times> (string \<times> rat) list" where
  \<comment> \<open>The second table holds the exact quotient; its rounding to two places as a
     floating-point number is not modelled.\<close>
  "most_busy_users df =
     (let x = take 5 (value_counts (map user df));
          df_percent = map (\<lambda>(u, n). (u, (of_nat n / of_nat (length df)) * 100)) (value_counts (map user df))
      in (x, df_percent))"

definition split_lines :: "string \<Rightarrow> string list" where
  \<comment> \<open>\<open>s.split('\n')\<close>\<close>
  "split_lines s = foldr (\<lambda>c ls. if c = CHR 0x0A then [] # ls else (c # hd ls) # tl ls) s [[]]"

definition remove_stop_words :: "string option \<Rightarrow> string \<Rightarrow> string" where
  \<comment> \<open>The inner function of \<open>create_wordcloud\<close>. The first argument is the content of
     \<open>stop_hinglish.txt\<close>, or \<open>None\<close> when opening or reading it raises.\<close>
  "remove_stop_words stop_file msg =
     (case stop_file of
        None \<Rightarrow> msg
      | Some content \<Rightarrow>
          (let stop_words = split_lines content;
               msg' = re_sub_empty punct_pattern (str_lower msg);
               filtered_words = filter (\<lambda>w. w \<notin> set stop_words) (py_split msg')
           in py_join '' '' filtered_words))"

datatype cloud = Cloud string

definition create_wordcloud :: "string option \<Rightarrow> string \<Rightarrow> row list \<Rightarrow> cloud" where
  \<comment> \<open>The word cloud is the text given to \<open>WordCloud.generate\<close>; the rendering, and a
     failure of the renderer itself, are not modelled.\<close>
  "create_wordcloud stop_file selected_user df0 =
     (let df = (if selected_user \<noteq> ''Overall'' then filter (\<lambda>r. user r = selected_user) df0 else df0);
          temp = filter (\<lambda>r. user r \<noteq> ''group_notification'') df;
          temp = filter (\<lambda>r. \<not> str_contains media_pattern (message r)) temp;
          temp = map (\<lambda>r. r\<lparr>message := re_sub_empty url_pattern (message r)\<rparr>) temp;
          temp = map (\<lambda>r. r\<lparr>message := remove_stop_words stop_file (message r)\<rparr>) temp;
          all_words = py_join '' '' (map message temp)
      in Cloud (if py_strip all_words \<noteq> [] then all_words else ''No meaningful words found''))"

definition most_common_words :: "string option \<Rightarrow> string \<Rightarrow> row list \<Rightarrow> (string \<times> nat) list" where
  \<comment> \<open>The table of (word, count) rows; the empty table is \<open>pd.DataFrame()\<close>.\<close>
  "most_common_words stop_file selected_user df0 =
     (let df = (if selected_user \<noteq> ''Overall'' then filter (\<lambda>r. user r = selected_user) df0 else df0);
          temp = filter (\<lambda>r. user r \<noteq> ''group_notification'') df;
          temp = filter (\<lambda>r. \<not> str_contains media_pattern (message r)) temp;
          temp = map (\<lambda>r. r\<lparr>message := re_sub_empty url_pattern (message r)\<rparr>) temp
      in case stop_file of
           None \<Rightarrow> []
         | Some content \<Rightarrow>
             (let stop_words = split_lines content;
                  words = concat (map (\<lambda>r.
                    filter (\<lambda>w. w \<notin> set stop_words \<and> 1 < length w)
                      (py_split (re_sub_empty punct_pattern (str_lower (message r))))) temp)
              in most_common 20 (counter words)))"

definition emoji_helper :: "(char \<Rightarrow> bool) \<Rightarrow> string \<Rightarrow> row list \<Rightarrow> (char \<times> nat) list" where
  \<comment> \<open>The first argument is membership in the table \<open>emoji.EMOJI_DATA\<close>.\<close>
  "emoji_helper emoji_data selected_user df0 =
     (let df = (if selected_user \<noteq> ''Overall'' then filter (\<lambda>r. user r = selected_user) df0 else df0);
          emojis = concat (map (\<lambda>r. filter emoji_data (message r)) df)
      in if emojis = [] then []
         else most_common (length (counter emojis)) (counter emojis))"

definition group_count :: "('r \<Rightarrow> 'k::linorder) \<Rightarrow> 'r list \<Rightarrow> ('k \<times> nat) list" where
  \<comment> \<open>\<open>.groupby(keys).count()['message']\<close>: the keys that occur, in rising order, each
     with the number of its rows.\<close>
  "group_count key df = map (\<lambda>k. (k, length (filter (\<lambda>r. key r = k) df))) (sort (remdups (map key df)))"

definition monthly_timeline :: "string \<Rightarrow> row list \<Rightarrow> ((nat \<times> nat \<times> string) \<times> nat \<times> string) list" where
  \<comment> \<open>Rows of ((year, month_num, month), message, time).\<close>
  "monthly_timeline selected_user df0 =
     (let df = (if selected_user \<noteq> ''Overall'' then filter (\<lambda>r. user r = selected_user) df0 else df0);
          timeline = group_count (\<lambda>r. (year r, month_num r, month r)) df;
          timeline = map (\<lambda>((y, m, name), n). ((y, m, name), n, name @ ''-'' @ py_str y)) timeline
      in sort_key (\<lambda>((y, m, name), n, t). (y, m)) timeline)"

definition daily_timeline :: "string \<Rightarrow> row list \<Rightarrow> ((nat \<times> nat \<times> nat) \<times> nat) list" where
  "daily_timeline selected_user df0 =
     (let df = (if selected_user \<noteq> ''Overall'' then filter (\<lambda>r. user r = selected_user) df0 else df0);
          daily_timeline = group_count only_date df
      in sort_key fst daily_timeline)"

definition reindex :: "'k list \<Rightarrow> 'v \<Rightarrow> ('k \<times> 'v) list \<Rightarrow> ('k \<times> 'v) list" where
  \<comment> \<open>\<open>.reindex(order)\<close>: the entries of the labels of \<open>order\<close>, in that order; a label
     that the table lacks gets the missing value.\<close>
  "reindex order missing t = map (\<lambda>k. (k, case map_of t k of None \<Rightarrow> missing | Some v \<Rightarrow> v)) order"

definition week_activity_map :: "string \<Rightarrow> row list \<Rightarrow> (string \<times> cell) list" where
  "week_activity_map selected_user df0 =
     (let df = (if selected_user \<noteq> ''Overall'' then filter (\<lambda>r. user r = selected_user) df0 else df0)
      in reindex day_order NaN (map (\<lambda>(k, n). (k, Count n)) (value_counts (map day_name df))))"

definition month_activity_map :: "string \<Rightarrow> row list \<Rightarrow> (string \<times> cell) list" where
  "month_activity_map selected_user df0 =
     (let df = (if selected_user \<noteq> ''Overall'' then filter (\<lambda>r. user r = selected_user) df0 else df0)
      in reindex month_order NaN (map (\<lambda>(k, n). (k, Count n)) (value_counts (map month df))))"

record heatmap =
  hm_columns :: "string list"
  hm_rows :: "(string \<times> cell list) list"

definition pivot_table :: "row list \<Rightarrow> heatmap" where
  \<comment> \<open>\<open>df.pivot_table(index='day_name', columns='period', values='message',
     aggfunc='count')\<close>: one row for each weekday that occurs and one column for each
     period that occurs, both in rising order; a cell holds the number of rows of
     its weekday and period, and no value when there is none.\<close>
  "pivot_table df =
     (let cols = sort (remdups (map period df));
          idx = sort (remdups (map day_name df))
      in \<lparr>hm_columns = cols,
          hm_rows = map (\<lambda>d. (d, map (\<lambda>p.
            (let n = length (filter (\<lambda>r. day_name r = d \<and> period r = p) df)
             in if n = 0 then NaN else Count n)) cols)) idx\<rparr>)"

definition fillna :: "nat \<Rightarrow> heatmap \<Rightarrow> heatmap" where
  "fillna v t = t\<lparr>hm_rows := map (\<lambda>(d, cs). (d, map (\<lambda>c. case c of NaN \<Rightarrow> Count v | _ \<Rightarrow> c) cs)) (hm_rows t)\<rparr>"

definition activity_heatmap :: "string \<Rightarrow> row list \<Rightarrow> heatmap" where
  "activity_heatmap selected_user df0 =
     (let df = (if selected_user \<noteq> ''Overall'' then filter (\<lambda>r. user r = selected_user) df0 else df0);
          user_heatmap = fillna 0 (pivot_table df)
      in user_heatmap\<lparr>hm_rows := reindex day_order (replicate (length (hm_columns user_heatmap)) NaN)
                                    (hm_rows user_heatmap)\<rparr>)"


section \<open>The example export of the specification\<close>

definition example_export :: string where
  "example_export =
     ''12/08/23, 10:15 - Alice: Hello!\<newline>'' @
     ''12/08/23, 10:16 - Bob: <Media omitted>\<newline>'' @
     ''12/08/23, 10:17 - Alice: check www.x.com''"

definition example_rows :: "row list" where
  "example_rows =
     [\<lparr>date = \<lparr>dt_year = 2023, dt_month = 8, dt_day = 12, dt_hour = 10, dt_minute = 15\<rparr>,
       user = ''Alice'', message = ''Hello!\<newline>'',
       only_date = (2023, 8, 12), year = 2023, month_num = 8, month = ''August'', day = 12,
       day_name = ''Saturday'', hour = 10, minute = 15, period = ''10-11''\<rparr>,
      \<lparr>date = \<lparr>dt_year = 2023, dt_month = 8, dt_day = 12, dt_hour = 10, dt_minute = 16\<rparr>,
       user = ''Bob'', message = ''<Media omitted>\<newline>'',
       only_date = (2023, 8, 12), year = 2023, month_num = 8, month = ''August'', day = 12,
       day_name = ''Saturday'', hour = 10, minute = 16, period = ''10-11''\<rparr>,
      \<lparr>date = \<lparr>dt_year = 2023, dt_month = 8, dt_day = 12, dt_hour = 10, dt_minute = 17\<rparr>,
       user = ''Alice'', message = ''check www.x.com'',
       only_date = (2023, 8, 12), year = 2023, month_num = 8, month = ''August'', day = 12,
       day_name = ''Saturday'', hour = 10, minute = 17, period = ''10-11''\<rparr>]"
section \<open>Properties of the parser\<close>

lemma less_10_cases:
  "m < (10::nat) \<Longrightarrow> m = 0 \<or> m = 1 \<or> m = 2 \<or> m = 3 \<or> m = 4 \<or> m = 5 \<or> m = 6 \<or> m = 7 \<or> m = 8 \<or> m = 9"
  by arith

lemma digit_char_val: "is_digit (digit_char n) \<and> of_char (digit_char n) = 48 + n mod 10"
proof -
  have "n mod 10 < 10" by simp
  from less_10_cases [OF this] show ?thesis
    by (elim disjE) (simp_all add: is_digit_def)
qed

lemma py_int_snoc:
  "py_int (s @ [c]) = (if is_digit c then 10 * py_int s + (of_char c - 48) else py_int s)"
  by simp

lemma py_int_py_str: "py_int (py_str n) = n"
proof (induction n rule: py_str.induct)
  case (1 n)
  show ?case
  proof (cases "n < 10")
    case True
    then show ?thesis
      using digit_char_val [of n] by (subst py_str.simps) (simp del: digit_char.simps)
  next
    case False
    have "py_int (py_str n) = py_int (py_str (n div 10) @ [digit_char n])"
      using False by (subst py_str.simps) simp
    also have "\<dots> = 10 * (n div 10) + n mod 10"
      using 1 False by (simp only: py_int_snoc digit_char_val) simp
    finally show ?thesis by simp
  qed
qed

lemma py_str_digits: "\<forall>c \<in> set (py_str n). is_digit c"
proof (induction n rule: py_str.induct)
  case (1 n)
  show ?case
    using 1 by (subst py_str.simps) (auto simp: digit_char_val simp del: digit_char.simps)
qed

lemma py_str_no_padding: "py_str n \<noteq> [] \<and> (0 < n \<longrightarrow> hd (py_str n) \<noteq> CHR ''0'')"
proof (induction n rule: py_str.induct)
  case (1 n)
  show ?case
  proof (cases "n < 10")
    case True
    from less_10_cases [OF this] show ?thesis
      by (elim disjE) (simp_all add: py_str.simps)
  next
    case False
    then have "0 < n div 10" by simp
    with 1 False show ?thesis
      by (subst (1 2) py_str.simps) (simp del: digit_char.simps)
  qed
qed

lemma preprocess_rows:
  assumes "preprocess data = Inr (df, errs)"
  shows "\<exists>kept. df = map make_row kept"
  using assms by (auto simp: preprocess_def Let_def split: if_splits)

text \<open>
  C4 (as amended). For every parsed record, \<open>period\<close> is \<open>23-00\<close> when the hour of the
  timestamp is 23, \<open>00-1\<close> when it is 0, and \<open>h-(h+1)\<close> for every other hour \<open>h\<close>, both
  numbers in decimal digits without padding (\<open>py_int\<close> reads them back, and
  \<open>py_str_no_padding\<close> excludes a leading zero).
\<close>

theorem hour_bucket_label:
  assumes "preprocess data = Inr (df, errs)" and "r \<in> set df"
  shows "hour r = dt_hour (date r) \<and>
         (hour r = 23 \<longrightarrow> period r = ''23-00'') \<and>
         (hour r = 0 \<longrightarrow> period r = ''00-1'') \<and>
         (hour r \<noteq> 23 \<and> hour r \<noteq> 0 \<longrightarrow> period r = py_str (hour r) @ ''-'' @ py_str (hour r + 1)) \<and>
         py_int (py_str (hour r)) = hour r \<and> py_int (py_str (hour r + 1)) = hour r + 1"
proof -
  obtain kept where "df = map make_row kept"
    using preprocess_rows [OF assms(1)] by blast
  with assms(2) obtain md where r: "r = make_row md" by auto
  have "py_str 23 = ''23''" and "py_str (Suc 0) = ''1''"
    by (simp_all add: py_str.simps)
  then show ?thesis
    unfolding r by (simp add: make_row_def Let_def period_of_def py_int_py_str del: py_int.simps)
qed

text \<open>
  The specification's reading of the fallback chain: an ordered list of candidate
  formats, tried in sequence, the first success returned.
\<close>

fun first_success :: "string list \<Rightarrow> string \<Rightarrow> datetime option" where
  "first_success [] s = None"
| "first_success (f # fs) s = (case to_datetime s f of Some dt \<Rightarrow> Some dt | None \<Rightarrow> first_success fs s)"

definition date_formats :: "string list" where
  "date_formats = [''%d/%m/%y, %I:%M %p - '', ''%d/%m/%y, %H:%M - '',
                   ''%d/%m/%Y, %I:%M %p - '', ''%d/%m/%Y, %H:%M - '']"

lemma parse_date_first_success:
  "parse_date s = (first_success date_formats s,
                   if first_success date_formats s = None then [diagnostic s] else [])"
  by (simp add: parse_date_def date_formats_def split: option.splits)

lemma to_datetime_valid: "to_datetime s f = Some dt \<Longrightarrow> valid_date dt"
  by (auto simp: to_datetime_def Let_def split: option.splits list.splits if_splits)

lemma first_success_valid: "first_success fs s = Some dt \<Longrightarrow> valid_date dt"
  by (induction fs) (auto simp: to_datetime_valid split: option.splits)

lemma split_findall_length:
  "length (re_split m s) = Suc (length (re_findall m s))"
  by (simp add: re_split_def re_findall_def split: prod.splits)

text \<open>
  C3. Whenever the text has a timestamp match, \<open>preprocess\<close> returns (it does not
  raise on a timestamp it cannot parse). Each extracted timestamp is parsed with the
  formats 2-digit year 12-hour, 2-digit year 24-hour, 4-digit year 12-hour, 4-digit
  year 24-hour, in this order, and the first success is its value. A chunk whose
  timestamp fails all four has no record in the output, and one diagnostic is given
  for it; every record of the output has a valid date.
\<close>

theorem timestamp_formats_in_order:
  assumes "re_findall (re_match pattern) data \<noteq> []"
  defines "dates \<equiv> re_findall (re_match pattern) data"
  defines "chunks \<equiv> drop 1 (re_split (re_match pattern) data)"
  defines "kept \<equiv> filter (\<lambda>(c, s). first_success date_formats s \<noteq> None) (zip chunks dates)"
  shows "\<exists>df errs. preprocess data = Inr (df, errs) \<and>
           map date df = map (\<lambda>(c, s). the (first_success date_formats s)) kept \<and>
           map (\<lambda>r. (user r, message r)) df = map (\<lambda>(c, s). split_user c) kept \<and>
           errs = map diagnostic (filter (\<lambda>s. first_success date_formats s = None) dates) \<and>
           length df + length errs = length dates \<and>
           (\<forall>r \<in> set df. valid_date (date r))"
proof -
  have len: "length chunks = length dates"
    by (simp add: chunks_def dates_def split_findall_length)
  define parsed where "parsed = map parse_date dates"
  have fst_parsed: "map fst parsed = map (first_success date_formats) dates"
    by (simp add: parsed_def parse_date_first_success)
  have errs: "concat (map snd parsed) =
      map diagnostic (filter (\<lambda>s. first_success date_formats s = None) dates)"
    unfolding parsed_def by (induction dates) (auto simp: parse_date_first_success)
  have kept_eq: "List.map_filter (\<lambda>(m, d). map_option (Pair m) d) (zip chunks (map fst parsed)) =
      map (\<lambda>(c, s). (c, the (first_success date_formats s))) kept"
    unfolding fst_parsed kept_def using len
    by (induction chunks dates rule: list_induct2) auto
  define df where "df = map make_row (map (\<lambda>(c, s). (c, the (first_success date_formats s))) kept)"
  define es where "es = map diagnostic (filter (\<lambda>s. first_success date_formats s = None) dates)"
  have pre: "preprocess data = Inr (df, es)"
  proof -
    have 1: "drop 1 (re_split (re_match pattern) data) = chunks"
      by (simp add: chunks_def)
    have 2: "re_findall (re_match pattern) data = dates"
      by (simp add: dates_def)
    have 3: "map parse_date dates = parsed"
      by (simp add: parsed_def)
    have 4: "map fst parsed \<noteq> []"
      using assms(1) by (simp add: parsed_def dates_def)
    show ?thesis
      unfolding preprocess_def 1 2 Let_def 3 kept_eq errs
      using len 4 by (simp add: df_def es_def)
  qed
  have dates_df: "map date df = map (\<lambda>(c, s). the (first_success date_formats s)) kept"
    by (simp add: df_def make_row_def Let_def split_def comp_def)
  have users_df: "map (\<lambda>r. (user r, message r)) df = map (\<lambda>(c, s). split_user c) kept"
    by (simp add: df_def make_row_def Let_def split_def comp_def)
  have "length kept + length es = length dates"
    unfolding kept_def es_def using len
    by (induction chunks dates rule: list_induct2) auto
  then have count: "length df + length es = length dates"
    by (simp add: df_def)
  have valid: "\<forall>r \<in> set df. valid_date (date r)"
  proof
    fix r assume "r \<in> set df"
    then have "date r \<in> set (map date df)" by simp
    then obtain c s where "(c, s) \<in> set kept" and d: "date r = the (first_success date_formats s)"
      unfolding dates_df by auto
    then have "first_success date_formats s \<noteq> None"
      by (auto simp: kept_def)
    then show "valid_date (date r)"
      using d first_success_valid by fastforce
  qed
  show ?thesis
    using pre dates_df users_df count valid es_def by blast
qed

section \<open>Properties of the aggregates\<close>

definition select_user :: "string \<Rightarrow> row list \<Rightarrow> row list" where
  \<comment> \<open>The author filter of the specification: all records, or the records of one author.\<close>
  "select_user u df = (if u = ''Overall'' then df else filter (\<lambda>r. user r = u) df)"

lemma select_user_idem: "select_user ''Overall'' (select_user u df) = select_user u df"
  by (simp add: select_user_def)

lemma fetch_stats_count:
  "fst (fetch_stats u df) = length (select_user u df)"
  by (simp add: fetch_stats_def select_user_def Let_def)

text \<open>
  C10. Every aggregate with an author filter compares the filter value with the
  sentinel \<open>Overall\<close> and with nothing else: its result for a filter value \<open>u\<close> is its
  result for \<open>Overall\<close> on the records that \<open>select_user u\<close> keeps, and \<open>select_user\<close>
  keeps all records for the value \<open>Overall\<close>. So the filter value \<open>Overall\<close> counts
  every record of the chat, whoever its author is, also when a participant is named
  \<open>Overall\<close>; any other value counts the records of that author only.
\<close>

theorem overall_is_whole_chat:
  "fetch_stats u df = fetch_stats ''Overall'' (select_user u df) \<and>
   create_wordcloud sf u df = create_wordcloud sf ''Overall'' (select_user u df) \<and>
   most_common_words sf u df = most_common_words sf ''Overall'' (select_user u df) \<and>
   emoji_helper ed u df = emoji_helper ed ''Overall'' (select_user u df) \<and>
   monthly_timeline u df = monthly_timeline ''Overall'' (select_user u df) \<and>
   daily_timeline u df = daily_timeline ''Overall'' (select_user u df) \<and>
   week_activity_map u df = week_activity_map ''Overall'' (select_user u df) \<and>
   month_activity_map u df = month_activity_map ''Overall'' (select_user u df) \<and>
   activity_heatmap u df = activity_heatmap ''Overall'' (select_user u df) \<and>
   select_user ''Overall'' df = df \<and>
   fst (fetch_stats ''Overall'' df) = length df \<and>
   (u \<noteq> ''Overall'' \<longrightarrow> fst (fetch_stats u df) = length (filter (\<lambda>r. user r = u) df))"
proof -
  have "fst (fetch_stats ''Overall'' df) = length df"
    and "u \<noteq> ''Overall'' \<longrightarrow> fst (fetch_stats u df) = length (filter (\<lambda>r. user r = u) df)"
    by (simp_all add: fetch_stats_count select_user_def)
  then show ?thesis
    by (simp add: select_user_def fetch_stats_def create_wordcloud_def most_common_words_def
      emoji_helper_def monthly_timeline_def daily_timeline_def week_activity_map_def
      month_activity_map_def activity_heatmap_def)
qed

text \<open>
  C7 (as amended). When the stop-word list cannot be read, neither operation raises.
  The word-frequency operation returns the empty table. The word-cloud operation
  falls back: \<open>remove_stop_words\<close> returns each message as it is, so the text given to
  the renderer is made of the messages of the filtered records (notifications and
  media messages left out, links removed), joined by blanks, with no stop-word
  removal and also no lower-casing and no removal of punctuation.
\<close>

theorem stop_words_unreadable:
  "most_common_words None u df = [] \<and>
   remove_stop_words None msg = msg \<and>
   create_wordcloud None u df =
     Cloud (let all_words = py_join '' ''
                  (map (\<lambda>r. re_sub_empty url_pattern (message r))
                     (filter (\<lambda>r. user r \<noteq> ''group_notification'' \<and>
                                 \<not> str_contains media_pattern (message r)) (select_user u df)))
            in if py_strip all_words \<noteq> [] then all_words else ''No meaningful words found'')"
  by (simp add: most_common_words_def remove_stop_words_def create_wordcloud_def select_user_def
      Let_def comp_def)


lemma matches_word_ci:
  "matches (word_ci w) s =
     (if length w \<le> length s \<and> str_lower (take (length w) s) = str_lower w
      then [drop (length w) s] else [])"
proof (induction w arbitrary: s)
  case Nil
  then show ?case by (cases s) (simp_all add: word_ci_def str_lower_def)
next
  case (Cons c w)
  show ?case
  proof (cases w)
    case Nil
    then show ?thesis
      by (cases s) (auto simp: word_ci_def lit_ci_def str_lower_def)
  next
    case (Cons d w')
    have step: "matches (word_ci (c # w)) s =
        concat (map (matches (word_ci w)) (matches (lit_ci c) s))"
      by (simp add: word_ci_def Cons)
    show ?thesis
      unfolding step using Cons.IH
      by (cases s) (auto simp: lit_ci_def str_lower_def)
  qed
qed

lemma re_search_Some_iff:
  "re_search m s \<noteq> None \<longleftrightarrow> (\<exists>p t. s = p @ t \<and> m t \<noteq> None)"
proof (induction s)
  case Nil
  then show ?case by (auto split: option.splits)
next
  case (Cons c cs)
  show ?case
  proof (cases "m (c # cs)")
    case (Some a)
    then have "re_search m (c # cs) \<noteq> None" by (cases a) simp
    moreover have "\<exists>p t. c # cs = p @ t \<and> m t \<noteq> None"
      using Some by (intro exI [of _ "[]"] exI [of _ "c # cs"]) simp
    ultimately show ?thesis by blast
  next
    case None
    have "re_search m (c # cs) \<noteq> None \<longleftrightarrow> re_search m cs \<noteq> None"
      using None by (auto split: option.splits)
    also have "\<dots> \<longleftrightarrow> (\<exists>p t. cs = p @ t \<and> m t \<noteq> None)"
      by (rule Cons.IH)
    also have "\<dots> \<longleftrightarrow> (\<exists>p t. c # cs = p @ t \<and> m t \<noteq> None)"
    proof
      assume "\<exists>p t. cs = p @ t \<and> m t \<noteq> None"
      then obtain p t where "cs = p @ t" "m t \<noteq> None" by blast
      then have "c # cs = (c # p) @ t \<and> m t \<noteq> None" by simp
      then show "\<exists>p t. c # cs = p @ t \<and> m t \<noteq> None" by blast
    next
      assume "\<exists>p t. c # cs = p @ t \<and> m t \<noteq> None"
      then obtain p t where pt: "c # cs = p @ t" "m t \<noteq> None" by blast
      with None have "p \<noteq> []" by auto
      then obtain p' where "p = c # p'" using pt(1) by (cases p) auto
      with pt have "cs = p' @ t \<and> m t \<noteq> None" by simp
      then show "\<exists>p t. cs = p @ t \<and> m t \<noteq> None" by blast
    qed
    finally show ?thesis .
  qed
qed

definition contains_marker :: "string \<Rightarrow> bool" where
  \<comment> \<open>The text has a part that equals the media marker up to the case of its letters.\<close>
  "contains_marker t = (\<exists>p m s. t = p @ m @ s \<and> str_lower m = ''<media omitted>'')"

lemma str_contains_media: "str_contains media_pattern t = contains_marker t"
proof -
  define w where "w = ''<Media omitted>''"
  have low: "str_lower w = ''<media omitted>''"
    by (simp add: w_def str_lower_def to_lower_def is_upper_def)
  have m: "media_pattern x \<noteq> None \<longleftrightarrow>
      (length w \<le> length x \<and> str_lower (take (length w) x) = str_lower w)" for x
    unfolding media_pattern_def w_def [symmetric]
    by (simp add: re_match_def matches_word_ci)
  have "str_contains media_pattern t \<longleftrightarrow> (\<exists>p x. t = p @ x \<and> media_pattern x \<noteq> None)"
    unfolding str_contains_def by (rule re_search_Some_iff)
  also have "\<dots> \<longleftrightarrow> contains_marker t"
  proof
    assume "\<exists>p x. t = p @ x \<and> media_pattern x \<noteq> None"
    then obtain p x where "t = p @ x" "length w \<le> length x"
        "str_lower (take (length w) x) = str_lower w"
      using m by blast
    then have "t = p @ take (length w) x @ drop (length w) x \<and>
        str_lower (take (length w) x) = ''<media omitted>''"
      using low by simp
    then show "contains_marker t"
      unfolding contains_marker_def by blast
  next
    assume "contains_marker t"
    then obtain p k s where t: "t = p @ k @ s" and k: "str_lower k = str_lower w"
      unfolding contains_marker_def low by blast
    from k have "length k = length w"
      unfolding str_lower_def by (rule map_eq_imp_length_eq)
    then have "length w \<le> length (k @ s) \<and> str_lower (take (length w) (k @ s)) = str_lower w"
      using k by simp
    then have "media_pattern (k @ s) \<noteq> None"
      using m by blast
    with t show "\<exists>p x. t = p @ x \<and> media_pattern x \<noteq> None" by blast
  qed
  finally show ?thesis .
qed

text \<open>
  C5 (as amended). A text counts as a media message exactly when it contains the
  marker \<open><Media omitted>\<close> as a part, up to the case of its letters; it need not equal
  the marker. \<open>fetch_stats\<close> counts the selected records with such a text, and the
  word-cloud and word-frequency operations leave exactly these records out.
\<close>

theorem media_is_substring_match:
  "str_contains media_pattern t = contains_marker t \<and>
   fst (snd (snd (fetch_stats u df))) = length (filter (\<lambda>r. contains_marker (message r)) (select_user u df)) \<and>
   create_wordcloud sf u df = create_wordcloud sf u (filter (\<lambda>r. \<not> contains_marker (message r)) df) \<and>
   most_common_words sf u df = most_common_words sf u (filter (\<lambda>r. \<not> contains_marker (message r)) df)"
proof -
  have 1: "fst (snd (snd (fetch_stats u df))) =
      length (filter (\<lambda>r. contains_marker (message r)) (select_user u df))"
    by (simp add: fetch_stats_def Let_def select_user_def str_contains_media)
  have key: "filter (\<lambda>r. \<not> str_contains media_pattern (message r))
        (filter (\<lambda>r. user r \<noteq> ''group_notification'')
          (if u \<noteq> ''Overall''
           then filter (\<lambda>r. user r = u) (filter (\<lambda>r. \<not> contains_marker (message r)) df)
           else filter (\<lambda>r. \<not> contains_marker (message r)) df)) =
      filter (\<lambda>r. \<not> str_contains media_pattern (message r))
        (filter (\<lambda>r. user r \<noteq> ''group_notification'')
          (if u \<noteq> ''Overall'' then filter (\<lambda>r. user r = u) df else df))"
    by (auto simp: str_contains_media intro: filter_cong)
  have 2: "create_wordcloud sf u df =
      create_wordcloud sf u (filter (\<lambda>r. \<not> contains_marker (message r)) df)"
    unfolding create_wordcloud_def Let_def key ..
  have 3: "most_common_words sf u df =
      most_common_words sf u (filter (\<lambda>r. \<not> contains_marker (message r)) df)"
    unfolding most_common_words_def Let_def key ..
  show ?thesis
    using 1 2 3 str_contains_media by blast
qed

section \<open>The split of a chunk into author and text\<close>

fun find_sep :: "string \<Rightarrow> (string \<times> string) option" where
  \<comment> \<open>The first colon that a whitespace character follows: the text before the colon
     and the text after the whitespace character.\<close>
  "find_sep [] = None"
| "find_sep (c # cs) =
     (case cs of
        w # t \<Rightarrow> if c = CHR '':'' \<and> is_space w then Some ([], t)
                 else map_option (\<lambda>(p, r). (c # p, r)) (find_sep cs)
      | [] \<Rightarrow> None)"

definition has_boundary :: "string \<Rightarrow> bool" where
  \<comment> \<open>The text has a colon-whitespace boundary behind a non-empty name.\<close>
  "has_boundary s = (\<exists>n w t. n \<noteq> [] \<and> is_space w \<and> s = n @ CHR '':'' # w # t)"

lemma matches_sep:
  "matches (Seq (lit CHR '':'') (Cls is_space)) x =
     (case x of c # w # t \<Rightarrow> if c = CHR '':'' \<and> is_space w then [t] else [] | _ \<Rightarrow> [])"
  by (auto simp: lit_def split: list.splits)

lemma lazy_candidates:
  "(case concat (map (\<lambda>x. map (\<lambda>y. (take (length (pre @ cs) - length x) (pre @ cs), y))
        (matches (Seq (lit CHR '':'') (Cls is_space)) x)) (cs # plus_lazy (\<lambda>c. is_word c \<or> \<not> is_word c) cs)) of
      [] \<Rightarrow> None | m # _ \<Rightarrow> Some m) =
   map_option (\<lambda>(p, r). (pre @ p, r)) (find_sep cs)"
proof (induction cs arbitrary: pre)
  case Nil
  then show ?case by (simp add: matches_sep del: matches.simps)
next
  case (Cons c cs)
  have IH: "(case concat (map (\<lambda>x. map (\<lambda>y. (take (length (pre @ c # cs) - length x) (pre @ c # cs), y))
        (matches (Seq (lit CHR '':'') (Cls is_space)) x)) (cs # plus_lazy (\<lambda>c. is_word c \<or> \<not> is_word c) cs)) of
      [] \<Rightarrow> None | m # _ \<Rightarrow> Some m) =
   map_option (\<lambda>(p, r). ((pre @ [c]) @ p, r)) (find_sep cs)"
    using Cons.IH [of "pre @ [c]"] by (simp del: matches.simps)
  show ?case
  proof (cases "\<exists>w t. cs = w # t \<and> c = CHR '':'' \<and> is_space w")
    case True
    then obtain w t where "cs = w # t" "c = CHR '':''" "is_space w" by blast
    then show ?thesis
      by (simp add: matches_sep del: matches.simps)
  next
    case False
    then have "matches (Seq (lit CHR '':'') (Cls is_space)) (c # cs) = []"
      by (auto simp: matches_sep simp del: matches.simps split: list.splits)
    then have "(case concat (map (\<lambda>x. map (\<lambda>y. (take (length (pre @ c # cs) - length x) (pre @ c # cs), y))
        (matches (Seq (lit CHR '':'') (Cls is_space)) x)) ((c # cs) # plus_lazy (\<lambda>c. is_word c \<or> \<not> is_word c) (c # cs))) of
      [] \<Rightarrow> None | m # _ \<Rightarrow> Some m) = 
      map_option (\<lambda>(p, r). ((pre @ [c]) @ p, r)) (find_sep cs)"
      using IH by (simp del: matches.simps)
    also have "\<dots> = map_option (\<lambda>(p, r). (pre @ p, r)) (find_sep (c # cs))"
      using False by (cases cs) (auto simp: option.map_comp comp_def split_def)
    finally show ?thesis .
  qed
qed

lemma user_pattern_find_sep:
  "user_pattern s = (case s of [] \<Rightarrow> None | c # cs \<Rightarrow> map_option (\<lambda>(p, r). (c # p, r)) (find_sep cs))"
proof (cases s)
  case Nil
  then show ?thesis by (simp add: user_pattern_def re_match_group_def del: matches.simps(2))
next
  case (Cons c cs)
  have "user_pattern (c # cs) =
    (case concat (map (\<lambda>x. map (\<lambda>y. (take (length ([c] @ cs) - length x) ([c] @ cs), y))
        (matches (Seq (lit CHR '':'') (Cls is_space)) x)) (cs # plus_lazy (\<lambda>c. is_word c \<or> \<not> is_word c) cs)) of
      [] \<Rightarrow> None | m # _ \<Rightarrow> Some m)"
    by (simp add: user_pattern_def re_match_group_def del: matches.simps(2))
  also have "\<dots> = map_option (\<lambda>(p, r). ([c] @ p, r)) (find_sep cs)"
    by (rule lazy_candidates)
  finally show ?thesis using Cons by simp
qed


lemma find_sep_Some:
  "find_sep s = Some (p, r) \<Longrightarrow> \<exists>w. is_space w \<and> s = p @ CHR '':'' # w # r"
proof (induction s arbitrary: p)
  case Nil
  then show ?case by simp
next
  case (Cons c cs)
  show ?case
  proof (cases cs)
    case Nil
    with Cons.prems show ?thesis by simp
  next
    case (Cons w t)
    show ?thesis
    proof (cases "c = CHR '':'' \<and> is_space w")
      case True
      with Cons Cons.prems show ?thesis by auto
    next
      case False
      with Cons Cons.prems obtain p' where "find_sep cs = Some (p', r)" and "p = c # p'"
        by (auto split: if_splits)
      with Cons.IH [of p'] show ?thesis by auto
    qed
  qed
qed

lemma find_sep_first:
  "is_space w \<Longrightarrow> \<exists>p' r'. find_sep (p @ CHR '':'' # w # r) = Some (p', r') \<and> length p' \<le> length p"
proof (induction p)
  case Nil
  then show ?case by simp
next
  case (Cons c p)
  then obtain p' r' where IH: "find_sep (p @ CHR '':'' # w # r) = Some (p', r')" "length p' \<le> length p"
    by blast
  obtain d t where dt: "p @ CHR '':'' # w # r = d # t"
    by (cases p) auto
  show ?case
  proof (cases "c = CHR '':'' \<and> is_space d")
    case True
    then show ?thesis by (simp add: dt)
  next
    case False
    then have "find_sep ((c # p) @ CHR '':'' # w # r) = Some (c # p', r')"
      using IH(1) by (auto simp: dt)
    with IH(2) show ?thesis by simp
  qed
qed

lemma has_boundary_iff: "has_boundary s \<longleftrightarrow> user_pattern s \<noteq> None"
proof
  assume "has_boundary s"
  then obtain n w t where n: "n \<noteq> []" "is_space w" "s = n @ CHR '':'' # w # t"
    unfolding has_boundary_def by blast
  then obtain c n0 where "n = c # n0" by (cases n) auto
  with n find_sep_first [of w n0 t] show "user_pattern s \<noteq> None"
    by (auto simp: user_pattern_find_sep)
next
  assume "user_pattern s \<noteq> None"
  then obtain c cs p r where "s = c # cs" "find_sep cs = Some (p, r)"
    by (auto simp: user_pattern_find_sep split: list.splits)
  with find_sep_Some [of cs p r] obtain w where "is_space w" "s = (c # p) @ CHR '':'' # w # r"
    by auto
  then show "has_boundary s"
    unfolding has_boundary_def by blast
qed

lemma user_pattern_first:
  assumes "s = n @ CHR '':'' # w # t" and "n \<noteq> []" and "is_space w"
    and first: "\<And>n' w' t'. n' \<noteq> [] \<Longrightarrow> is_space w' \<Longrightarrow> s = n' @ CHR '':'' # w' # t' \<Longrightarrow> length n \<le> length n'"
  shows "user_pattern s = Some (n, t)"
proof -
  obtain c n0 where n: "n = c # n0" using assms(2) by (cases n) auto
  obtain p' r' where f: "find_sep (n0 @ CHR '':'' # w # t) = Some (p', r')" and le: "length p' \<le> length n0"
    using find_sep_first [OF assms(3)] by blast
  obtain w' where w': "is_space w'" and eq: "n0 @ CHR '':'' # w # t = p' @ CHR '':'' # w' # r'"
    using find_sep_Some [OF f] by blast
  have "s = (c # p') @ CHR '':'' # w' # r'"
    using assms(1) n eq by simp
  from first [OF _ w' this] have "length n0 \<le> length p'"
    using n by simp
  with le have "length p' = length n0" by simp
  with eq have "p' = n0" and "r' = t" by auto
  with f show ?thesis
    using assms(1) n by (simp add: user_pattern_find_sep)
qed

lemma find_sep_None_tl: "find_sep (c # cs) = None \<Longrightarrow> find_sep cs = None"
  by (cases cs) (auto split: if_splits list.splits)

lemma re_search_user_None: "user_pattern s = None \<Longrightarrow> re_search user_pattern s = None"
proof (induction s)
  case Nil
  then show ?case by simp
next
  case (Cons c cs)
  then have "find_sep cs = None"
    by (simp add: user_pattern_find_sep)
  have "user_pattern cs = None"
  proof (cases cs)
    case Nil
    then show ?thesis by (simp add: user_pattern_find_sep)
  next
    case (Cons d ds)
    with \<open>find_sep cs = None\<close> have "find_sep ds = None"
      using find_sep_None_tl by blast
    with Cons show ?thesis by (simp add: user_pattern_find_sep)
  qed
  with Cons show ?case by simp
qed

lemma split_no_boundary:
  assumes "\<not> has_boundary s"
  shows "re_split_group user_pattern s = [s]"
proof -
  have "user_pattern s = None"
    using assms has_boundary_iff by blast
  then have "re_search user_pattern s = None"
    by (rule re_search_user_None)
  then show ?thesis
    by (simp add: re_split_group_def re_finditer.simps)
qed

lemma split_at_match:
  assumes "user_pattern s = Some (n, t)"
  shows "re_split_group user_pattern s = [] # n # re_split_group user_pattern t"
proof -
  obtain c cs p where s: "s = c # cs" and f: "find_sep cs = Some (p, t)"
    using assms by (auto simp: user_pattern_find_sep split: list.splits)
  obtain w where "cs = p @ CHR '':'' # w # t"
    using find_sep_Some [OF f] by blast
  then have len: "length t < length s"
    using s by simp
  have "re_search user_pattern s = Some ([], n, t)"
    using assms s by simp
  then show ?thesis
    using len by (subst re_split_group_def, subst re_finditer.simps)
      (simp add: re_split_group_def split: prod.splits)
qed

text \<open>
  C2 (as amended). A boundary is a colon that a whitespace character follows, behind a
  non-empty name. The author and the text of the record of a chunk are the two parts
  of \<open>split_user\<close>. If the chunk has no boundary, the author is \<open>group_notification\<close> and the
  text is the whole chunk. If it has one, the author is the text before the first
  boundary; and when the remainder behind that boundary (behind the colon and one
  whitespace character) has no boundary of its own, the text is that remainder,
  unchanged.
\<close>

theorem author_and_text:
  "user (make_row (s, d)) = fst (split_user s) \<and> message (make_row (s, d)) = snd (split_user s) \<and>
   (\<not> has_boundary s \<longrightarrow> split_user s = (''group_notification'', s)) \<and>
   (\<forall>n w t. s = n @ CHR '':'' # w # t \<and> n \<noteq> [] \<and> is_space w \<and>
       (\<forall>n' w' t'. n' \<noteq> [] \<and> is_space w' \<and> s = n' @ CHR '':'' # w' # t' \<longrightarrow> length n \<le> length n')
     \<longrightarrow> fst (split_user s) = n \<and> (\<not> has_boundary t \<longrightarrow> snd (split_user s) = t))"
proof (intro conjI allI impI)
  show "user (make_row (s, d)) = fst (split_user s)"
    and "message (make_row (s, d)) = snd (split_user s)"
    by (simp_all add: make_row_def Let_def)
next
  assume "\<not> has_boundary s"
  then show "split_user s = (''group_notification'', s)"
    by (simp add: split_user_def split_no_boundary)
next
  fix n w t
  assume a: "s = n @ CHR '':'' # w # t \<and> n \<noteq> [] \<and> is_space w \<and>
       (\<forall>n' w' t'. n' \<noteq> [] \<and> is_space w' \<and> s = n' @ CHR '':'' # w' # t' \<longrightarrow> length n \<le> length n')"
  then have "user_pattern s = Some (n, t)"
    by (intro user_pattern_first [of s n w t]) blast+
  then have e: "re_split_group user_pattern s = [] # n # re_split_group user_pattern t"
    by (rule split_at_match)
  show "fst (split_user s) = n"
    by (simp add: split_user_def e)
  show "snd (split_user s) = t" if "\<not> has_boundary t"
    using that by (simp add: split_user_def e split_no_boundary)
qed

section \<open>The timestamp pattern as a deterministic scan\<close>

text \<open>
  A device for the proofs about concatenated exports: the backtracking match of the
  timestamp pattern never has a choice that matters, so it is a scan by a finite
  automaton over the classes of characters the pattern tells apart.
\<close>

datatype cclass = CDigit | CSlash | CComma | CColon | CSpace | CAp | CMm | CDash | COther

definition classify :: "char \<Rightarrow> cclass" where
  "classify c =
     (if is_digit c then CDigit else if c = CHR ''/'' then CSlash
      else if c = CHR '','' then CComma else if c = CHR '':'' then CColon
      else if is_space c then CSpace else if c \<in> set ''APap'' then CAp
      else if c \<in> set ''Mm'' then CMm else if c = CHR ''-'' then CDash else COther)"

datatype ts_state =
    Day0 | Day1 | Day2 | Mon0 | Mon1 | Mon2 | Yr0 | Yr1 | Yr2 | Yr3 | Yr4 | Comma
  | Hr0 | Hr1 | Hr2 | Min0 | Min1 | Min2 | Sp1 | Ap | Mm | Sp2 | Dash | Done

fun ts_next :: "ts_state \<Rightarrow> cclass \<Rightarrow> ts_state option" where
  "ts_next Day0 c = (if c = CDigit then Some Day1 else None)"
| "ts_next Day1 c = (if c = CDigit then Some Day2 else if c = CSlash then Some Mon0 else None)"
| "ts_next Day2 c = (if c = CSlash then Some Mon0 else None)"
| "ts_next Mon0 c = (if c = CDigit then Some Mon1 else None)"
| "ts_next Mon1 c = (if c = CDigit then Some Mon2 else if c = CSlash then Some Yr0 else None)"
| "ts_next Mon2 c = (if c = CSlash then Some Yr0 else None)"
| "ts_next Yr0 c = (if c = CDigit then Some Yr1 else None)"
| "ts_next Yr1 c = (if c = CDigit then Some Yr2 else None)"
| "ts_next Yr2 c = (if c = CDigit then Some Yr3 else if c = CComma then Some Comma else None)"
| "ts_next Yr3 c = (if c = CDigit then Some Yr4 else if c = CComma then Some Comma else None)"
| "ts_next Yr4 c = (if c = CComma then Some Comma else None)"
| "ts_next Comma c = (if c = CSpace then Some Hr0 else None)"
| "ts_next Hr0 c = (if c = CDigit then Some Hr1 else None)"
| "ts_next Hr1 c = (if c = CDigit then Some Hr2 else if c = CColon then Some Min0 else None)"
| "ts_next Hr2 c = (if c = CColon then Some Min0 else None)"
| "ts_next Min0 c = (if c = CDigit then Some Min1 else None)"
| "ts_next Min1 c = (if c = CDigit then Some Min2 else None)"
| "ts_next Min2 c = (if c = CSpace then Some Sp1 else if c = CAp then Some Ap else None)"
| "ts_next Sp1 c = (if c = CAp then Some Ap else if c = CDash then Some Dash else None)"
| "ts_next Ap c = (if c = CMm then Some Mm else None)"
| "ts_next Mm c = (if c = CSpace then Some Sp2 else None)"
| "ts_next Sp2 c = (if c = CDash then Some Dash else None)"
| "ts_next Dash c = (if c = CSpace then Some Done else None)"
| "ts_next Done c = None"

fun ts_run :: "ts_state \<Rightarrow> string \<Rightarrow> string option" where
  \<comment> \<open>The text behind the timestamp, when the scan from the state reaches the end of
     the pattern.\<close>
  "ts_run q [] = (if q = Done then Some [] else None)"
| "ts_run q (c # cs) =
     (if q = Done then Some (c # cs)
      else case ts_next q (classify c) of None \<Rightarrow> None | Some q' \<Rightarrow> ts_run q' cs)"

definition tail_re :: "nat \<Rightarrow> regex" where
  \<comment> \<open>The pattern from its \<open>n\<close>-th item on.\<close>
  "tail_re n = seqs (drop n [Rep 1 2 is_digit, lit CHR ''/'', Rep 1 2 is_digit, lit CHR ''/'',
     Rep 2 4 is_digit, lit CHR '','', Cls is_space, Rep 1 2 is_digit, lit CHR '':'',
     Rep 2 2 is_digit, Opt (seqs [Opt (Cls is_space), one_of ''APap'', one_of ''Mm'']),
     Cls is_space, lit CHR ''-'', Cls is_space])"

fun resid :: "ts_state \<Rightarrow> regex" where
  \<comment> \<open>What is left of the pattern to match in each state.\<close>
  "resid Day0 = tail_re 0"
| "resid Day1 = Seq (Rep 0 1 is_digit) (tail_re 1)"
| "resid Day2 = tail_re 1"
| "resid Mon0 = tail_re 2"
| "resid Mon1 = Seq (Rep 0 1 is_digit) (tail_re 3)"
| "resid Mon2 = tail_re 3"
| "resid Yr0 = tail_re 4"
| "resid Yr1 = Seq (Rep 1 3 is_digit) (tail_re 5)"
| "resid Yr2 = Seq (Rep 0 2 is_digit) (tail_re 5)"
| "resid Yr3 = Seq (Rep 0 1 is_digit) (tail_re 5)"
| "resid Yr4 = tail_re 5"
| "resid Comma = tail_re 6"
| "resid Hr0 = tail_re 7"
| "resid Hr1 = Seq (Rep 0 1 is_digit) (tail_re 8)"
| "resid Hr2 = tail_re 8"
| "resid Min0 = tail_re 9"
| "resid Min1 = Seq (Rep 1 1 is_digit) (tail_re 10)"
| "resid Min2 = tail_re 10"
| "resid Sp1 = Alt (Seq (Seq (one_of ''APap'') (one_of ''Mm'')) (tail_re 11)) (tail_re 12)"
| "resid Ap = Seq (one_of ''Mm'') (tail_re 11)"
| "resid Mm = tail_re 11"
| "resid Sp2 = tail_re 12"
| "resid Dash = tail_re 13"
| "resid Done = tail_re 13"

lemma classify_facts:
  "is_digit c = (classify c = CDigit)"
  "(c = CHR ''/'') = (classify c = CSlash)"
  "(c = CHR '','') = (classify c = CComma)"
  "(c = CHR '':'') = (classify c = CColon)"
  "is_space c = (classify c = CSpace)"
  "(c = CHR ''A'' \<or> c = CHR ''P'' \<or> c = CHR ''a'' \<or> c = CHR ''p'') = (classify c = CAp)"
  "(c = CHR ''M'' \<or> c = CHR ''m'') = (classify c = CMm)"
  "(c = CHR ''-'') = (classify c = CDash)"
  by (auto simp: classify_def is_digit_def is_space_def)

lemma rep_greedy_0_0 [simp]: "rep_greedy 0 0 p s = [s]"
  by (cases s) simp_all

lemma tail_re_simps:
  "tail_re 0 = Seq (Rep 1 2 is_digit) (tail_re 1)"
  "tail_re 1 = Seq (lit CHR ''/'') (tail_re 2)"
  "tail_re 2 = Seq (Rep 1 2 is_digit) (tail_re 3)"
  "tail_re 3 = Seq (lit CHR ''/'') (tail_re 4)"
  "tail_re 4 = Seq (Rep 2 4 is_digit) (tail_re 5)"
  "tail_re 5 = Seq (lit CHR '','') (tail_re 6)"
  "tail_re 6 = Seq (Cls is_space) (tail_re 7)"
  "tail_re 7 = Seq (Rep 1 2 is_digit) (tail_re 8)"
  "tail_re 8 = Seq (lit CHR '':'') (tail_re 9)"
  "tail_re 9 = Seq (Rep 2 2 is_digit) (tail_re 10)"
  "tail_re 10 = Seq (Opt (Seq (Opt (Cls is_space)) (Seq (one_of ''APap'') (one_of ''Mm'')))) (tail_re 11)"
  "tail_re 11 = Seq (Cls is_space) (tail_re 12)"
  "tail_re 12 = Seq (lit CHR ''-'') (tail_re 13)"
  "tail_re 13 = Cls is_space"
  "tail_re (Suc 0) = Seq (lit CHR ''/'') (tail_re 2)"
  by (simp_all add: tail_re_def)

lemma pattern_tail: "pattern = tail_re 0"
  by (simp add: pattern_def tail_re_def)


lemma resid_Nil: "q \<noteq> Done \<Longrightarrow> matches (resid q) [] = []"
  by (cases q) (simp_all add: tail_re_simps lit_def one_of_def)

lemma resid_Cons:
  "q \<noteq> Done \<Longrightarrow> matches (resid q) (c # cs) =
     (case ts_next q (classify c) of
        None \<Rightarrow> []
      | Some q' \<Rightarrow> if q' = Done then [cs] else matches (resid q') cs)"
  by (cases q; cases "classify c")
     (simp_all add: tail_re_simps lit_def one_of_def classify_facts)


lemma ts_run_Done [simp]: "ts_run Done s = Some s"
  by (cases s) simp_all

lemma matches_resid:
  "q \<noteq> Done \<Longrightarrow> matches (resid q) s = (case ts_run q s of None \<Rightarrow> [] | Some r \<Rightarrow> [r])"
proof (induction s arbitrary: q)
  case Nil
  then show ?case by (simp add: resid_Nil)
next
  case (Cons c cs)
  show ?case
  proof (cases "ts_next q (classify c)")
    case None
    with Cons.prems show ?thesis by (simp add: resid_Cons)
  next
    case (Some q')
    show ?thesis
    proof (cases "q' = Done")
      case True
      with Some Cons.prems show ?thesis by (simp add: resid_Cons)
    next
      case False
      with Some Cons.prems Cons.IH [OF False] show ?thesis by (simp add: resid_Cons)
    qed
  qed
qed

lemma ts_run_suffix: "ts_run q s = Some r \<Longrightarrow> \<exists>m. s = m @ r \<and> (q \<noteq> Done \<longrightarrow> m \<noteq> [])"
proof (induction s arbitrary: q)
  case Nil
  then show ?case by (simp split: if_splits)
next
  case (Cons c cs)
  show ?case
  proof (cases "q = Done")
    case True
    with Cons.prems show ?thesis by simp
  next
    case False
    with Cons.prems obtain q' where "ts_next q (classify c) = Some q'" "ts_run q' cs = Some r"
      by (auto split: option.splits)
    with Cons.IH [of q'] obtain m where "cs = m @ r" by blast
    then have "c # cs = (c # m) @ r \<and> c # m \<noteq> []" by simp
    then show ?thesis by blast
  qed
qed

definition ts_match :: "string matcher" where
  \<comment> \<open>The match of the timestamp pattern at the start of a text, by the scan.\<close>
  "ts_match s = (case ts_run Day0 s of None \<Rightarrow> None | Some r \<Rightarrow> Some (take (length s - length r) s, r))"

lemma re_match_pattern: "re_match pattern = ts_match"
proof
  fix s
  have "matches pattern s = (case ts_run Day0 s of None \<Rightarrow> [] | Some r \<Rightarrow> [r])"
    using matches_resid [of Day0 s] by (simp add: pattern_tail)
  then show "re_match pattern s = ts_match s"
    by (simp add: re_match_def ts_match_def split: option.splits)
qed

lemma ts_match_Some:
  "ts_match s = Some (m, r) \<Longrightarrow> s = m @ r \<and> m \<noteq> []"
proof -
  assume a: "ts_match s = Some (m, r)"
  then have run: "ts_run Day0 s = Some r" and m: "m = take (length s - length r) s"
    by (auto simp: ts_match_def split: option.splits)
  from ts_run_suffix [OF run] obtain m' where "s = m' @ r" "m' \<noteq> []" by auto
  with m show ?thesis by simp
qed

datatype outcome = Dead | Accepted string | At ts_state

fun ts_go :: "ts_state \<Rightarrow> string \<Rightarrow> outcome" where
  \<comment> \<open>The scan of a whole text: it fails, or reaches the end of the pattern with some
     text left, or stops in a state at the end of the text.\<close>
  "ts_go q [] = (if q = Done then Accepted [] else At q)"
| "ts_go q (c # cs) =
     (if q = Done then Accepted (c # cs)
      else case ts_next q (classify c) of None \<Rightarrow> Dead | Some q' \<Rightarrow> ts_go q' cs)"

lemma ts_run_append:
  "ts_run q (s @ t) =
     (case ts_go q s of Dead \<Rightarrow> None | Accepted r \<Rightarrow> Some (r @ t) | At q' \<Rightarrow> ts_run q' t)"
  by (induction s arbitrary: q) (auto split: option.splits)

lemma ts_run_go:
  "ts_run q s = (case ts_go q s of Accepted r \<Rightarrow> Some r | _ \<Rightarrow> None)"
  by (induction s arbitrary: q) (auto split: option.splits)

lemma ts_go_At_not_Done: "ts_go q s = At q' \<Longrightarrow> q' \<noteq> Done"
  by (induction s arbitrary: q) (auto split: option.splits if_splits)

definition after_non_digit :: "ts_state list" where
  \<comment> \<open>The states that the scan enters by a character that is not a digit.\<close>
  "after_non_digit = [Mon0, Yr0, Comma, Hr0, Min0, Sp1, Ap, Mm, Sp2, Dash, Done]"

lemma ts_next_non_digit:
  "ts_next q c = Some q' \<Longrightarrow> c \<noteq> CDigit \<Longrightarrow> q' \<in> set after_non_digit"
  by (cases q) (auto simp: after_non_digit_def split: if_splits)

lemma ts_go_last:
  "ts_go q s = At q' \<Longrightarrow> s \<noteq> [] \<Longrightarrow> \<not> is_digit (last s) \<Longrightarrow> q' \<in> set after_non_digit"
proof (induction s arbitrary: q)
  case Nil
  then show ?case by simp
next
  case (Cons c cs)
  from Cons.prems(1) have nd: "q \<noteq> Done"
    by (auto split: if_splits)
  with Cons.prems(1) obtain q1 where q1: "ts_next q (classify c) = Some q1" "ts_go q1 cs = At q'"
    by (auto split: option.splits)
  show ?case
  proof (cases cs)
    case Nil
    with q1 have "q' = q1" by (auto split: if_splits)
    moreover have "classify c \<noteq> CDigit"
      using Cons.prems(3) Nil by (simp add: classify_facts)
    ultimately show ?thesis
      using q1(1) ts_next_non_digit by blast
  next
    case (Cons d ds)
    with Cons.prems Cons.IH [OF q1(2)] show ?thesis by simp
  qed
qed

definition all_classes :: "cclass list" where
  "all_classes = [CDigit, CSlash, CComma, CColon, CSpace, CAp, CMm, CDash, COther]"

fun both_alive :: "nat \<Rightarrow> ts_state \<Rightarrow> ts_state \<Rightarrow> bool" where
  \<comment> \<open>Some text of the given length keeps both scans going, or one of them is at the
     end of the pattern before.\<close>
  "both_alive 0 a b = True"
| "both_alive (Suc k) a b =
     (a = Done \<or> b = Done \<or>
      list_ex (\<lambda>c. case (ts_next a c, ts_next b c) of
                     (Some a', Some b') \<Rightarrow> both_alive k a' b'
                   | _ \<Rightarrow> False) all_classes)"

lemma both_alive_run:
  "ts_run a t = Some x \<Longrightarrow> ts_run b t = Some y \<Longrightarrow> both_alive k a b"
proof (induction k arbitrary: a b t)
  case 0
  then show ?case by simp
next
  case (Suc k)
  show ?case
  proof (cases "a = Done \<or> b = Done")
    case True
    then show ?thesis by auto
  next
    case False
    with Suc.prems obtain c cs where t: "t = c # cs"
      by (cases t) auto
    with False Suc.prems obtain a' b' where
      n: "ts_next a (classify c) = Some a'" "ts_next b (classify c) = Some b'"
      and r: "ts_run a' cs = Some x" "ts_run b' cs = Some y"
      by (auto split: option.splits)
    have "classify c \<in> set all_classes"
      by (cases "classify c") (simp_all add: all_classes_def)
    moreover have "both_alive k a' b'"
      using Suc.IH [OF r] .
    then have "case (ts_next a (classify c), ts_next b (classify c)) of
        (Some a', Some b') \<Rightarrow> both_alive k a' b' | _ \<Rightarrow> False"
      using n by simp
    ultimately have "list_ex (\<lambda>c. case (ts_next a c, ts_next b c) of
        (Some a', Some b') \<Rightarrow> both_alive k a' b' | _ \<Rightarrow> False) all_classes"
      unfolding list_ex_iff by blast
    then show ?thesis by simp
  qed
qed

lemma crossing_dead:
  "list_all (\<lambda>q. q = Done \<or> \<not> both_alive 6 q Day0) after_non_digit"
  by (simp add: after_non_digit_def all_classes_def eval_nat_numeral)


lemma crossing:
  assumes "q \<in> set after_non_digit" and "q \<noteq> Done" and "ts_run Day0 t = Some r"
  shows "ts_run q t = None"
proof (rule ccontr)
  assume "ts_run q t \<noteq> None"
  then obtain x where "ts_run q t = Some x" by blast
  from both_alive_run [OF this assms(3)] have "both_alive 6 q Day0" .
  moreover have "\<not> both_alive 6 q Day0"
    using crossing_dead assms(1,2) by (auto simp: list_all_iff)
  ultimately show False by blast
qed

lemma ts_match_append_Some:
  assumes "ts_match s = Some (m, r)"
  shows "ts_match (s @ t) = Some (m, r @ t)"
proof -
  from assms have run: "ts_run Day0 s = Some r" and m: "m = take (length s - length r) s"
    by (auto simp: ts_match_def split: option.splits)
  from ts_match_Some [OF assms] have s: "s = m @ r" by blast
  from run have "ts_go Day0 s = Accepted r"
    by (auto simp: ts_run_go split: outcome.splits)
  then have "ts_run Day0 (s @ t) = Some (r @ t)"
    by (simp add: ts_run_append)
  then show ?thesis
    using s by (simp add: ts_match_def)
qed

lemma ts_match_append_None:
  assumes "ts_match s = None" and "s \<noteq> []" and "\<not> is_digit (last s)"
    and "ts_match t = Some (mt, rt)"
  shows "ts_match (s @ t) = None"
proof -
  from assms(1) have run: "ts_run Day0 s = None"
    by (auto simp: ts_match_def split: option.splits)
  from assms(4) have t: "ts_run Day0 t = Some rt"
    by (auto simp: ts_match_def split: option.splits)
  have "ts_run Day0 (s @ t) = None"
  proof (cases "ts_go Day0 s")
    case Dead
    then show ?thesis by (simp add: ts_run_append)
  next
    case (Accepted r)
    with run show ?thesis by (simp add: ts_run_go)
  next
    case (At q)
    then have "q \<in> set after_non_digit" and "q \<noteq> Done"
      using ts_go_last [OF At assms(2,3)] ts_go_At_not_Done [OF At] by auto
    from crossing [OF this t] At show ?thesis
      by (simp add: ts_run_append)
  qed
  then show ?thesis by (simp add: ts_match_def)
qed



lemma ts_match_Nil [simp]: "ts_match [] = None"
  by (simp add: ts_match_def)

lemma re_search_begins:
  "m s = Some (g, r) \<Longrightarrow> re_search m s = Some ([], g, r)"
  by (cases s) simp_all

lemma search_append:
  assumes b: "ts_match b = Some (mb, rb)"
  shows "s = [] \<or> \<not> is_digit (last s) \<Longrightarrow>
     re_search ts_match (s @ b) =
       (case re_search ts_match s of
          Some (bf, m, af) \<Rightarrow> Some (bf, m, af @ b)
        | None \<Rightarrow> Some (s, mb, rb))"
proof (induction s)
  case Nil
  then show ?case using b by (simp add: re_search_begins)
next
  case (Cons c cs)
  have IH: "re_search ts_match (cs @ b) =
       (case re_search ts_match cs of
          Some (bf, m, af) \<Rightarrow> Some (bf, m, af @ b)
        | None \<Rightarrow> Some (cs, mb, rb))"
    using Cons by (cases cs) auto
  show ?case
  proof (cases "ts_match (c # cs)")
    case None
    then have "ts_match ((c # cs) @ b) = None"
      using Cons.prems b by (intro ts_match_append_None) auto
    with None IH show ?thesis
      by (auto split: option.splits)
  next
    case (Some a)
    obtain m r where a: "a = (m, r)" by (cases a)
    with Some have "ts_match ((c # cs) @ b) = Some (m, r @ b)"
      using ts_match_append_Some by blast
    with Some a show ?thesis by simp
  qed
qed

lemma re_search_ts_shorter:
  "re_search ts_match s = Some (bf, m, af) \<Longrightarrow> s = bf @ m @ af \<and> m \<noteq> []"
proof (induction s arbitrary: bf)
  case Nil
  then show ?case by simp
next
  case (Cons c cs)
  show ?case
  proof (cases "ts_match (c # cs)")
    case None
    with Cons.prems obtain bf' where "re_search ts_match cs = Some (bf', m, af)" "bf = c # bf'"
      by (auto split: option.splits)
    with Cons.IH [of bf'] show ?thesis by simp
  next
    case (Some a)
    with Cons.prems have "ts_match (c # cs) = Some (m, af)" "bf = []"
      by (auto split: prod.splits)
    with ts_match_Some show ?thesis by simp
  qed
qed

lemma finditer_append:
  assumes b: "ts_match b = Some (mb, rb)"
    and fb: "re_finditer ts_match rb = (msb, tb)"
  shows "s = [] \<or> \<not> is_digit (last s) \<Longrightarrow>
     re_finditer ts_match (s @ b) =
       (fst (re_finditer ts_match s) @ (snd (re_finditer ts_match s), mb) # msb, tb)"
proof (induction s rule: length_induct)
  case (1 s)
  have rb: "length rb < length b"
    using ts_match_Some [OF b] by auto
  show ?case
  proof (cases "re_search ts_match s")
    case None
    then have "re_search ts_match (s @ b) = Some (s, mb, rb)"
      using search_append [OF b 1(2)] by simp
    moreover have "re_finditer ts_match s = ([], s)"
      using None by (subst re_finditer.simps) simp
    ultimately show ?thesis
      using rb fb by (subst re_finditer.simps) simp
  next
    case (Some x)
    obtain bf m af where x: "x = (bf, m, af)" by (cases x)
    from re_search_ts_shorter [of s bf m af] Some x
    have s: "s = bf @ m @ af" and m: "m \<noteq> []" by auto
    have "length s = length bf + length m + length af"
      by (subst s) simp
    with m have len: "length af < length s"
      by (cases m) simp_all
    have af: "af = [] \<or> \<not> is_digit (last af)"
      using 1(2) s by (cases "af = []") auto
    have IH: "re_finditer ts_match (af @ b) =
       (fst (re_finditer ts_match af) @ (snd (re_finditer ts_match af), mb) # msb, tb)"
      using 1(1) len af by blast
    have "re_search ts_match (s @ b) = Some (bf, m, af @ b)"
      using search_append [OF b 1(2)] Some x by simp
    then have l: "re_finditer ts_match (s @ b) =
        ((bf, m) # fst (re_finditer ts_match af) @ (snd (re_finditer ts_match af), mb) # msb, tb)"
      using len IH by (subst re_finditer.simps) simp
    have "re_finditer ts_match s =
        ((bf, m) # fst (re_finditer ts_match af), snd (re_finditer ts_match af))"
      using Some x len by (subst re_finditer.simps) (simp split: prod.splits)
    with l show ?thesis by simp
  qed
qed

lemma finditer_begins:
  assumes b: "ts_match b = Some (mb, rb)"
  shows "re_finditer ts_match b =
     (([], mb) # fst (re_finditer ts_match rb), snd (re_finditer ts_match rb))"
proof -
  have "length rb < length b"
    using ts_match_Some [OF b] by auto
  then show ?thesis
    using re_search_begins [of ts_match b mb rb] b
    by (subst re_finditer.simps) (simp split: prod.splits)
qed

lemma scan_append:
  assumes a: "a = [] \<or> \<not> is_digit (last a)" and b: "ts_match b \<noteq> None"
  shows "re_findall ts_match (a @ b) = re_findall ts_match a @ re_findall ts_match b"
    and "drop 1 (re_split ts_match (a @ b)) = drop 1 (re_split ts_match a) @ drop 1 (re_split ts_match b)"
proof -
  obtain mb rb where mb: "ts_match b = Some (mb, rb)"
    using b by auto
  obtain msb tb where fb: "re_finditer ts_match rb = (msb, tb)"
    by (cases "re_finditer ts_match rb")
  obtain msa ta where fa: "re_finditer ts_match a = (msa, ta)"
    by (cases "re_finditer ts_match a")
  have ab: "re_finditer ts_match (a @ b) = (msa @ (ta, mb) # msb, tb)"
    using finditer_append [OF mb fb a] fa by simp
  have bb: "re_finditer ts_match b = (([], mb) # msb, tb)"
    using finditer_begins [OF mb] fb by simp
  show "re_findall ts_match (a @ b) = re_findall ts_match a @ re_findall ts_match b"
    by (simp add: re_findall_def ab bb fa)
  show "drop 1 (re_split ts_match (a @ b)) = drop 1 (re_split ts_match a) @ drop 1 (re_split ts_match b)"
    by (cases msa) (simp_all add: re_split_def ab bb fa)
qed

lemma preprocess_parts:
  assumes "re_findall (re_match pattern) data = ds" and "drop 1 (re_split (re_match pattern) data) = ms"
    and "ds \<noteq> []"
  shows "preprocess data =
     Inr (map make_row (List.map_filter (\<lambda>(m, d). map_option (Pair m) d) (zip ms (map (fst \<circ> parse_date) ds))),
          concat (map (snd \<circ> parse_date) ds))"
proof -
  have "length (re_split (re_match pattern) data) = Suc (length ds)"
    using assms(1) by (simp add: split_findall_length)
  then have "length ms = length ds"
    using assms(2) by auto
  then show ?thesis
    unfolding preprocess_def assms(1,2) Let_def using assms(3) by simp
qed

lemma map_filter_append: "List.map_filter f (xs @ ys) = List.map_filter f xs @ List.map_filter f ys"
  by (simp add: List.map_filter_def)

text \<open>
  C9 (as amended). For two exports that each begin with a timestamp match, the first
  of which does not end in a decimal digit, parsing the concatenation gives the
  records of the first followed by the records of the second, each record unchanged
  (and the diagnostics of the first followed by those of the second).
\<close>

theorem concat_exports:
  assumes "re_match pattern a \<noteq> None" and "re_match pattern b \<noteq> None"
    and "\<not> is_digit (last a)"
  shows "\<exists>dfa ea dfb eb. preprocess a = Inr (dfa, ea) \<and> preprocess b = Inr (dfb, eb) \<and>
           preprocess (a @ b) = Inr (dfa @ dfb, ea @ eb)"
proof -
  have ma: "ts_match a \<noteq> None" and mb: "ts_match b \<noteq> None"
    using assms(1,2) by (simp_all add: re_match_pattern)
  have nda: "a = [] \<or> \<not> is_digit (last a)"
    using assms(3) by simp
  define da where "da = re_findall ts_match a"
  define db where "db = re_findall ts_match b"
  define ca where "ca = drop 1 (re_split ts_match a)"
  define cb where "cb = drop 1 (re_split ts_match b)"
  have da_ne: "da \<noteq> []"
    using ma finditer_begins [of a] by (auto simp: da_def re_findall_def)
  have db_ne: "db \<noteq> []"
    using mb finditer_begins [of b] by (auto simp: db_def re_findall_def)
  have la: "length ca = length da"
    using split_findall_length [of ts_match a] by (simp add: ca_def da_def)
  have fab: "re_findall ts_match (a @ b) = da @ db"
    and sab: "drop 1 (re_split ts_match (a @ b)) = ca @ cb"
    using scan_append [OF nda mb] by (simp_all add: da_def db_def ca_def cb_def)
  have pa: "preprocess a =
     Inr (map make_row (List.map_filter (\<lambda>(m, d). map_option (Pair m) d) (zip ca (map (fst \<circ> parse_date) da))),
          concat (map (snd \<circ> parse_date) da))"
    by (rule preprocess_parts) (simp_all add: re_match_pattern da_def ca_def da_ne [unfolded da_def])
  have pb: "preprocess b =
     Inr (map make_row (List.map_filter (\<lambda>(m, d). map_option (Pair m) d) (zip cb (map (fst \<circ> parse_date) db))),
          concat (map (snd \<circ> parse_date) db))"
    by (rule preprocess_parts) (simp_all add: re_match_pattern db_def cb_def db_ne [unfolded db_def])
  have pab: "preprocess (a @ b) =
     Inr (map make_row (List.map_filter (\<lambda>(m, d). map_option (Pair m) d)
            (zip (ca @ cb) (map (fst \<circ> parse_date) (da @ db)))),
          concat (map (snd \<circ> parse_date) (da @ db)))"
  proof (rule preprocess_parts)
    show "re_findall (re_match pattern) (a @ b) = da @ db"
      using fab by (simp add: re_match_pattern)
    show "drop 1 (re_split (re_match pattern) (a @ b)) = ca @ cb"
      using sab by (simp add: re_match_pattern)
    show "da @ db \<noteq> []"
      using da_ne by simp
  qed
  have "zip (ca @ cb) (map (fst \<circ> parse_date) (da @ db)) =
      zip ca (map (fst \<circ> parse_date) da) @ zip cb (map (fst \<circ> parse_date) db)"
    using la by simp
  then have "preprocess (a @ b) =
     Inr (map make_row (List.map_filter (\<lambda>(m, d). map_option (Pair m) d) (zip ca (map (fst \<circ> parse_date) da))) @
          map make_row (List.map_filter (\<lambda>(m, d). map_option (Pair m) d) (zip cb (map (fst \<circ> parse_date) db))),
          concat (map (snd \<circ> parse_date) da) @ concat (map (snd \<circ> parse_date) db))"
    unfolding pab by (simp add: map_filter_append)
  with pa pb show ?thesis by blast
qed

lemma first_boundary_min:
  assumes "user_pattern s = Some (n, t)" and "n' \<noteq> []" and "is_space w'"
    and "s = n' @ CHR '':'' # w' # t'"
  shows "length n \<le> length n'"
proof -
  obtain c n0 where n': "n' = c # n0" using assms(2) by (cases n') auto
  then have s: "s = c # (n0 @ CHR '':'' # w' # t')" using assms(4) by simp
  obtain p' r' where f: "find_sep (n0 @ CHR '':'' # w' # t') = Some (p', r')" and le: "length p' \<le> length n0"
    using find_sep_first [OF assms(3)] by blast
  from assms(1) s f have "n = c # p'"
    by (simp add: user_pattern_find_sep)
  with le n' show ?thesis by simp
qed

section \<open>Evaluation on concrete texts\<close>

lemmas eval_chars = is_digit_def is_space_def to_lower_def is_upper_def str_lower_def

lemmas eval_re = eval_chars lit_def lit_ci_def one_of_def word_def word_ci_def
  re_match_def re_match_group_def re_findall_def re_split_def re_split_group_def
  re_sub_empty_def re_finditer.simps

lemmas eval_scan = re_match_pattern ts_match_def classify_def is_digit_def is_space_def
  re_finditer.simps

lemmas eval_date = directive_of_def found_def is_leap_def days_in_month_def month_lengths_def
  valid_date_def to_datetime_def parse_date_def diagnostic_def

lemmas eval_calendar = is_leap_def month_lengths_def days_before_year_def days_before_month_def
  weekday_def day_order_def month_order_def day_name_of_def month_name_of_def

lemma make_row_fields:
  "make_row (c, dt) =
     \<lparr>date = dt, user = fst (split_user c), message = snd (split_user c),
      only_date = (dt_year dt, dt_month dt, dt_day dt),
      year = dt_year dt, month_num = dt_month dt, month = month_name_of dt,
      day = dt_day dt, day_name = day_name_of dt,
      hour = dt_hour dt, minute = dt_minute dt, period = period_of (dt_hour dt)\<rparr>"
  by (simp add: make_row_def Let_def)

lemma periods: "period_of 0 = ''00-1''" "period_of 9 = ''9-10''" "period_of 10 = ''10-11''"
  by (simp_all add: period_of_def py_str.simps)

lemma d1015:
  "parse_date ''12/08/23, 10:15 - '' =
     (Some \<lparr>dt_year = 2023, dt_month = 8, dt_day = 12, dt_hour = 10, dt_minute = 15\<rparr>, [])"
  by (simp add: eval_re eval_date)

lemma d1015_names:
  "day_name_of \<lparr>dt_year = 2023, dt_month = 8, dt_day = 12, dt_hour = 10, dt_minute = 15\<rparr> = ''Saturday''"
  "month_name_of \<lparr>dt_year = 2023, dt_month = 8, dt_day = 12, dt_hour = 10, dt_minute = 15\<rparr> = ''August''"
  by (simp_all add: eval_calendar)

lemma d1016:
  "parse_date ''12/08/23, 10:16 - '' =
     (Some \<lparr>dt_year = 2023, dt_month = 8, dt_day = 12, dt_hour = 10, dt_minute = 16\<rparr>, [])"
  by (simp add: eval_re eval_date)

lemma d1016_names:
  "day_name_of \<lparr>dt_year = 2023, dt_month = 8, dt_day = 12, dt_hour = 10, dt_minute = 16\<rparr> = ''Saturday''"
  "month_name_of \<lparr>dt_year = 2023, dt_month = 8, dt_day = 12, dt_hour = 10, dt_minute = 16\<rparr> = ''August''"
  by (simp_all add: eval_calendar)

lemma d1017:
  "parse_date ''12/08/23, 10:17 - '' =
     (Some \<lparr>dt_year = 2023, dt_month = 8, dt_day = 12, dt_hour = 10, dt_minute = 17\<rparr>, [])"
  by (simp add: eval_re eval_date)

lemma d1017_names:
  "day_name_of \<lparr>dt_year = 2023, dt_month = 8, dt_day = 12, dt_hour = 10, dt_minute = 17\<rparr> = ''Saturday''"
  "month_name_of \<lparr>dt_year = 2023, dt_month = 8, dt_day = 12, dt_hour = 10, dt_minute = 17\<rparr> = ''August''"
  by (simp_all add: eval_calendar)

lemma d0015:
  "parse_date ''12/08/23, 00:15 - '' =
     (Some \<lparr>dt_year = 2023, dt_month = 8, dt_day = 12, dt_hour = 0, dt_minute = 15\<rparr>, [])"
  by (simp add: eval_re eval_date)

lemma d0015_names:
  "day_name_of \<lparr>dt_year = 2023, dt_month = 8, dt_day = 12, dt_hour = 0, dt_minute = 15\<rparr> = ''Saturday''"
  "month_name_of \<lparr>dt_year = 2023, dt_month = 8, dt_day = 12, dt_hour = 0, dt_minute = 15\<rparr> = ''August''"
  by (simp_all add: eval_calendar)

lemma d0905:
  "parse_date ''13/08/23, 9:05 - '' =
     (Some \<lparr>dt_year = 2023, dt_month = 8, dt_day = 13, dt_hour = 9, dt_minute = 5\<rparr>, [])"
  by (simp add: eval_re eval_date)

lemma d0905_names:
  "day_name_of \<lparr>dt_year = 2023, dt_month = 8, dt_day = 13, dt_hour = 9, dt_minute = 5\<rparr> = ''Sunday''"
  "month_name_of \<lparr>dt_year = 2023, dt_month = 8, dt_day = 13, dt_hour = 9, dt_minute = 5\<rparr> = ''August''"
  by (simp_all add: eval_calendar)

lemma d2nd:
  "parse_date ''2/08/23, 10:16 - '' =
     (Some \<lparr>dt_year = 2023, dt_month = 8, dt_day = 2, dt_hour = 10, dt_minute = 16\<rparr>, [])"
  by (simp add: eval_re eval_date)

lemma d2nd_names:
  "day_name_of \<lparr>dt_year = 2023, dt_month = 8, dt_day = 2, dt_hour = 10, dt_minute = 16\<rparr> = ''Wednesday''"
  "month_name_of \<lparr>dt_year = 2023, dt_month = 8, dt_day = 2, dt_hour = 10, dt_minute = 16\<rparr> = ''August''"
  by (simp_all add: eval_calendar)

lemma d52:
  "parse_date ''52/08/23, 10:16 - '' =
     (None, [''Could not parse date: 52/08/23, 10:16 - . Please ensure your chat export is in a standard format.''])"
  by (simp add: eval_re eval_date)

lemma u_hello: "split_user ''Alice: Hello!\<newline>'' = (''Alice'', ''Hello!\<newline>'')"
  by (simp add: eval_re split_user_def user_pattern_def)

lemma u_media: "split_user ''Bob: <Media omitted>\<newline>'' = (''Bob'', ''<Media omitted>\<newline>'')"
  by (simp add: eval_re split_user_def user_pattern_def)

lemma u_check: "split_user ''Alice: check www.x.com'' = (''Alice'', ''check www.x.com'')"
  by (simp add: eval_re split_user_def user_pattern_def)

lemma u_ax: "split_user ''A: x'' = (''A'', ''x'')"
  by (simp add: eval_re split_user_def user_pattern_def)

lemma u_axn: "split_user ''A: x\<newline>'' = (''A'', ''x\<newline>'')"
  by (simp add: eval_re split_user_def user_pattern_def)

lemma u_ax1: "split_user ''A: x1'' = (''A'', ''x1'')"
  by (simp add: eval_re split_user_def user_pattern_def)

lemma u_by: "split_user ''B: y'' = (''B'', ''y'')"
  by (simp add: eval_re split_user_def user_pattern_def)

lemma u_see: "split_user ''Bob: see <media omitted> above'' = (''Bob'', ''see <media omitted> above'')"
  by (simp add: eval_re split_user_def user_pattern_def)

lemma u_overall: "split_user ''Overall: hi\<newline>'' = (''Overall'', ''hi\<newline>'')"
  by (simp add: eval_re split_user_def user_pattern_def)

lemma u_yo: "split_user ''Bob: yo'' = (''Bob'', ''yo'')"
  by (simp add: eval_re split_user_def user_pattern_def)

lemma example_scan:
  "re_finditer (re_match pattern) example_export =
     ([([], ''12/08/23, 10:15 - ''),
       (''Alice: Hello!\<newline>'', ''12/08/23, 10:16 - ''),
       (''Bob: <Media omitted>\<newline>'', ''12/08/23, 10:17 - '')],
      ''Alice: check www.x.com'')"
  by (simp add: eval_scan example_export_def)

lemma example_preprocess: "preprocess example_export = Inr (example_rows, [])"
  by (simp add: preprocess_def re_split_def re_findall_def example_scan List.map_filter_def
      make_row_fields d1015 d1016 d1017 d0015 d0905 d2nd d52
      d1015_names d1016_names d1017_names d0015_names d0905_names d2nd_names
      u_hello u_media u_check u_ax u_axn u_ax1 u_by u_see u_overall u_yo
      periods example_rows_def)

definition midnight_export :: string where
  "midnight_export = ''12/08/23, 00:15 - A: x''"

definition midnight_rows :: "row list" where
  "midnight_rows =
     [\<lparr>date = \<lparr>dt_year = 2023, dt_month = 8, dt_day = 12, dt_hour = 0, dt_minute = 15\<rparr>,
       user = ''A'', message = ''x'',
       only_date = (2023, 8, 12), year = 2023, month_num = 8, month = ''August'', day = 12,
       day_name = ''Saturday'', hour = 0, minute = 15, period = ''00-1''\<rparr>]"

lemma midnight_scan:
  "re_finditer (re_match pattern) midnight_export =
     ([([], ''12/08/23, 00:15 - '')],
      ''A: x'')"
  by (simp add: eval_scan midnight_export_def)

lemma midnight_preprocess: "preprocess midnight_export = Inr (midnight_rows, [])"
  by (simp add: preprocess_def re_split_def re_findall_def midnight_scan List.map_filter_def
      make_row_fields d1015 d1016 d1017 d0015 d0905 d2nd d52
      d1015_names d1016_names d1017_names d0015_names d0905_names d2nd_names
      u_hello u_media u_check u_ax u_axn u_ax1 u_by u_see u_overall u_yo
      periods midnight_rows_def)

definition quoted_marker_export :: string where
  "quoted_marker_export = ''12/08/23, 10:15 - Bob: see <media omitted> above''"

definition quoted_marker_rows :: "row list" where
  "quoted_marker_rows =
     [\<lparr>date = \<lparr>dt_year = 2023, dt_month = 8, dt_day = 12, dt_hour = 10, dt_minute = 15\<rparr>,
       user = ''Bob'', message = ''see <media omitted> above'',
       only_date = (2023, 8, 12), year = 2023, month_num = 8, month = ''August'', day = 12,
       day_name = ''Saturday'', hour = 10, minute = 15, period = ''10-11''\<rparr>]"

lemma quoted_marker_scan:
  "re_finditer (re_match pattern) quoted_marker_export =
     ([([], ''12/08/23, 10:15 - '')],
      ''Bob: see <media omitted> above'')"
  by (simp add: eval_scan quoted_marker_export_def)

lemma quoted_marker_preprocess: "preprocess quoted_marker_export = Inr (quoted_marker_rows, [])"
  by (simp add: preprocess_def re_split_def re_findall_def quoted_marker_scan List.map_filter_def
      make_row_fields d1015 d1016 d1017 d0015 d0905 d2nd d52
      d1015_names d1016_names d1017_names d0015_names d0905_names d2nd_names
      u_hello u_media u_check u_ax u_axn u_ax1 u_by u_see u_overall u_yo
      periods quoted_marker_rows_def)

definition weekend_export :: string where
  "weekend_export = ''12/08/23, 10:15 - A: x\<newline>13/08/23, 9:05 - B: y''"

definition weekend_rows :: "row list" where
  "weekend_rows =
     [\<lparr>date = \<lparr>dt_year = 2023, dt_month = 8, dt_day = 12, dt_hour = 10, dt_minute = 15\<rparr>,
       user = ''A'', message = ''x\<newline>'',
       only_date = (2023, 8, 12), year = 2023, month_num = 8, month = ''August'', day = 12,
       day_name = ''Saturday'', hour = 10, minute = 15, period = ''10-11''\<rparr>,
      \<lparr>date = \<lparr>dt_year = 2023, dt_month = 8, dt_day = 13, dt_hour = 9, dt_minute = 5\<rparr>,
       user = ''B'', message = ''y'',
       only_date = (2023, 8, 13), year = 2023, month_num = 8, month = ''August'', day = 13,
       day_name = ''Sunday'', hour = 9, minute = 5, period = ''9-10''\<rparr>]"

lemma weekend_scan:
  "re_finditer (re_match pattern) weekend_export =
     ([([], ''12/08/23, 10:15 - ''),
       (''A: x\<newline>'', ''13/08/23, 9:05 - '')],
      ''B: y'')"
  by (simp add: eval_scan weekend_export_def)

lemma weekend_preprocess: "preprocess weekend_export = Inr (weekend_rows, [])"
  by (simp add: preprocess_def re_split_def re_findall_def weekend_scan List.map_filter_def
      make_row_fields d1015 d1016 d1017 d0015 d0905 d2nd d52
      d1015_names d1016_names d1017_names d0015_names d0905_names d2nd_names
      u_hello u_media u_check u_ax u_axn u_ax1 u_by u_see u_overall u_yo
      periods weekend_rows_def)

definition first_export :: string where
  "first_export = ''12/08/23, 10:15 - A: x1''"

definition first_rows :: "row list" where
  "first_rows =
     [\<lparr>date = \<lparr>dt_year = 2023, dt_month = 8, dt_day = 12, dt_hour = 10, dt_minute = 15\<rparr>,
       user = ''A'', message = ''x1'',
       only_date = (2023, 8, 12), year = 2023, month_num = 8, month = ''August'', day = 12,
       day_name = ''Saturday'', hour = 10, minute = 15, period = ''10-11''\<rparr>]"

lemma first_scan:
  "re_finditer (re_match pattern) first_export =
     ([([], ''12/08/23, 10:15 - '')],
      ''A: x1'')"
  by (simp add: eval_scan first_export_def)

lemma first_preprocess: "preprocess first_export = Inr (first_rows, [])"
  by (simp add: preprocess_def re_split_def re_findall_def first_scan List.map_filter_def
      make_row_fields d1015 d1016 d1017 d0015 d0905 d2nd d52
      d1015_names d1016_names d1017_names d0015_names d0905_names d2nd_names
      u_hello u_media u_check u_ax u_axn u_ax1 u_by u_see u_overall u_yo
      periods first_rows_def)

definition second_export :: string where
  "second_export = ''2/08/23, 10:16 - B: y''"

definition second_rows :: "row list" where
  "second_rows =
     [\<lparr>date = \<lparr>dt_year = 2023, dt_month = 8, dt_day = 2, dt_hour = 10, dt_minute = 16\<rparr>,
       user = ''B'', message = ''y'',
       only_date = (2023, 8, 2), year = 2023, month_num = 8, month = ''August'', day = 2,
       day_name = ''Wednesday'', hour = 10, minute = 16, period = ''10-11''\<rparr>]"

lemma second_scan:
  "re_finditer (re_match pattern) second_export =
     ([([], ''2/08/23, 10:16 - '')],
      ''B: y'')"
  by (simp add: eval_scan second_export_def)

lemma second_preprocess: "preprocess second_export = Inr (second_rows, [])"
  by (simp add: preprocess_def re_split_def re_findall_def second_scan List.map_filter_def
      make_row_fields d1015 d1016 d1017 d0015 d0905 d2nd d52
      d1015_names d1016_names d1017_names d0015_names d0905_names d2nd_names
      u_hello u_media u_check u_ax u_axn u_ax1 u_by u_see u_overall u_yo
      periods second_rows_def)

definition joined_export :: string where
  "joined_export = ''12/08/23, 10:15 - A: x12/08/23, 10:16 - B: y''"

definition joined_rows :: "row list" where
  "joined_rows =
     [\<lparr>date = \<lparr>dt_year = 2023, dt_month = 8, dt_day = 12, dt_hour = 10, dt_minute = 15\<rparr>,
       user = ''A'', message = ''x'',
       only_date = (2023, 8, 12), year = 2023, month_num = 8, month = ''August'', day = 12,
       day_name = ''Saturday'', hour = 10, minute = 15, period = ''10-11''\<rparr>,
      \<lparr>date = \<lparr>dt_year = 2023, dt_month = 8, dt_day = 12, dt_hour = 10, dt_minute = 16\<rparr>,
       user = ''B'', message = ''y'',
       only_date = (2023, 8, 12), year = 2023, month_num = 8, month = ''August'', day = 12,
       day_name = ''Saturday'', hour = 10, minute = 16, period = ''10-11''\<rparr>]"

lemma joined_scan:
  "re_finditer (re_match pattern) joined_export =
     ([([], ''12/08/23, 10:15 - ''),
       (''A: x'', ''12/08/23, 10:16 - '')],
      ''B: y'')"
  by (simp add: eval_scan joined_export_def)

lemma joined_preprocess: "preprocess joined_export = Inr (joined_rows, [])"
  by (simp add: preprocess_def re_split_def re_findall_def joined_scan List.map_filter_def
      make_row_fields d1015 d1016 d1017 d0015 d0905 d2nd d52
      d1015_names d1016_names d1017_names d0015_names d0905_names d2nd_names
      u_hello u_media u_check u_ax u_axn u_ax1 u_by u_see u_overall u_yo
      periods joined_rows_def)

definition overall_export :: string where
  "overall_export = ''12/08/23, 10:15 - Overall: hi\<newline>12/08/23, 10:16 - Bob: yo''"

definition overall_rows :: "row list" where
  "overall_rows =
     [\<lparr>date = \<lparr>dt_year = 2023, dt_month = 8, dt_day = 12, dt_hour = 10, dt_minute = 15\<rparr>,
       user = ''Overall'', message = ''hi\<newline>'',
       only_date = (2023, 8, 12), year = 2023, month_num = 8, month = ''August'', day = 12,
       day_name = ''Saturday'', hour = 10, minute = 15, period = ''10-11''\<rparr>,
      \<lparr>date = \<lparr>dt_year = 2023, dt_month = 8, dt_day = 12, dt_hour = 10, dt_minute = 16\<rparr>,
       user = ''Bob'', message = ''yo'',
       only_date = (2023, 8, 12), year = 2023, month_num = 8, month = ''August'', day = 12,
       day_name = ''Saturday'', hour = 10, minute = 16, period = ''10-11''\<rparr>]"

lemma overall_scan:
  "re_finditer (re_match pattern) overall_export =
     ([([], ''12/08/23, 10:15 - ''),
       (''Overall: hi\<newline>'', ''12/08/23, 10:16 - '')],
      ''Bob: yo'')"
  by (simp add: eval_scan overall_export_def)

lemma overall_preprocess: "preprocess overall_export = Inr (overall_rows, [])"
  by (simp add: preprocess_def re_split_def re_findall_def overall_scan List.map_filter_def
      make_row_fields d1015 d1016 d1017 d0015 d0905 d2nd d52
      d1015_names d1016_names d1017_names d0015_names d0905_names d2nd_names
      u_hello u_media u_check u_ax u_axn u_ax1 u_by u_see u_overall u_yo
      periods overall_rows_def)

definition bad_day_export :: string where
  "bad_day_export = ''52/08/23, 10:16 - B: y''"

definition bad_day_rows :: "row list" where
  "bad_day_rows =
     []"

lemma bad_day_scan:
  "re_finditer (re_match pattern) bad_day_export =
     ([([], ''52/08/23, 10:16 - '')],
      ''B: y'')"
  by (simp add: eval_scan bad_day_export_def)

lemma bad_day_preprocess: "preprocess bad_day_export = Inr (bad_day_rows, [''Could not parse date: 52/08/23, 10:16 - . Please ensure your chat export is in a standard format.''])"
  by (simp add: preprocess_def re_split_def re_findall_def bad_day_scan List.map_filter_def
      make_row_fields d1015 d1016 d1017 d0015 d0905 d2nd d52
      d1015_names d1016_names d1017_names d0015_names d0905_names d2nd_names
      u_hello u_media u_check u_ax u_axn u_ax1 u_by u_see u_overall u_yo
      periods bad_day_rows_def)

section \<open>The claims on concrete exports\<close>

lemma example_words:
  "map (\<lambda>r. py_split (message r)) example_rows =
     [[''Hello!''], [''<Media'', ''omitted>''], [''check'', ''www.x.com'']]"
  by (simp add: example_rows_def py_split_def is_space_def)

lemma example_media:
  "str_contains media_pattern ''Hello!\<newline>'' = False"
  "str_contains media_pattern ''<Media omitted>\<newline>'' = True"
  "str_contains media_pattern ''check www.x.com'' = False"
  by (simp_all add: str_contains_def media_pattern_def eval_re)

lemma example_links:
  "map (\<lambda>r. re_findall url_pattern (message r)) example_rows = [[], [], [''www.x.com'']]"
  by (simp add: example_rows_def url_pattern_def eval_re)

lemma example_fetch_stats: "fetch_stats ''Overall'' example_rows = (3, 5, 1, 1)"
  by (simp add: fetch_stats_def example_words example_links)
     (simp add: example_rows_def example_media)

text \<open>
  C1 (as amended). Parsing the three-line example export gives exactly three records, and
  \<open>fetch_stats\<close> with the filter \<open>Overall\<close> on them returns 3 messages, 5 words
  (\<open>Hello!\<close>, \<open><Media\<close>, \<open>omitted>\<close>, \<open>check\<close>, \<open>www.x.com\<close>), 1 media message and 1 link.
\<close>

theorem example_stats:
  "(case preprocess example_export of
      Inl e \<Rightarrow> None
    | Inr (df, errs) \<Rightarrow> Some (length df, fetch_stats ''Overall'' df)) = Some (3, (3, 5, 1, 1))"
  by (simp add: example_preprocess example_fetch_stats) (simp add: example_rows_def)

text \<open>
  C1 as stated fails: the word count of the example is not 4.
\<close>

theorem example_stats_words_not_4:
  "(case preprocess example_export of
      Inl e \<Rightarrow> None
    | Inr (df, errs) \<Rightarrow> Some (length df, fetch_stats ''Overall'' df)) \<noteq> Some (3, (3, 4, 1, 1))"
  by (simp add: example_preprocess example_fetch_stats)

text \<open>
  C2 as stated fails: a second boundary in the remainder loses its colon and a blank
  comes in front of the text; and a boundary with nothing before it is no boundary.
\<close>

theorem author_and_text_counterexample:
  "split_user ''Alice: note: hello'' = (''Alice'', '' note hello'') \<and>
   split_user '': hello'' = (''group_notification'', '': hello'')"
  by (simp add: eval_re split_user_def user_pattern_def)

theorem author_and_text_witness:
  "fst (split_user ''A: x'') = ''A'' \<and> snd (split_user ''A: x'') = ''x''"
proof -
  have up: "user_pattern ''A: x'' = Some (''A'', ''x'')"
    by (simp add: eval_re user_pattern_def)
  have "user_pattern ''x'' = None"
    by (simp add: eval_re user_pattern_def)
  then have nb: "\<not> has_boundary ''x''"
    by (simp add: has_boundary_iff)
  have minimal: "\<forall>n' w' t'. n' \<noteq> [] \<and> is_space w' \<and> ''A: x'' = n' @ CHR '':'' # w' # t'
      \<longrightarrow> length ''A'' \<le> length n'"
    using first_boundary_min [OF up] by blast
  have dec: "''A: x'' = ''A'' @ CHR '':'' # CHR '' '' # ''x'' \<and> ''A'' \<noteq> [] \<and> is_space CHR '' ''"
    by (simp add: is_space_def)
  show ?thesis
    using author_and_text [of "''A: x''" "\<lparr>dt_year = 2023, dt_month = 8, dt_day = 12, dt_hour = 0, dt_minute = 15\<rparr>"]
      dec minimal nb by blast
qed

theorem timestamp_formats_in_order_witness:
  "re_findall (re_match pattern) bad_day_export \<noteq> [] \<and>
   (\<exists>df errs. preprocess bad_day_export = Inr (df, errs) \<and> length df + length errs = 1)"
proof -
  have f: "re_findall (re_match pattern) bad_day_export = [''52/08/23, 10:16 - '']"
    by (simp add: re_findall_def bad_day_scan)
  then have "re_findall (re_match pattern) bad_day_export \<noteq> []"
    by simp
  from timestamp_formats_in_order [OF this] f show ?thesis
    by auto
qed

theorem hour_bucket_label_witness:
  "hour (hd midnight_rows) = 0 \<and> period (hd midnight_rows) = ''00-1''"
  using hour_bucket_label [OF midnight_preprocess, of "hd midnight_rows"]
  by (simp add: midnight_rows_def)

text \<open>
  C4 as stated fails: at hour 0 the label is \<open>00-1\<close>, not \<open>00-01\<close>.
\<close>

theorem hour_bucket_counterexample:
  "(case preprocess midnight_export of
      Inl e \<Rightarrow> None
    | Inr (df, errs) \<Rightarrow> Some (map (\<lambda>r. (hour r, period r)) df)) = Some [(0, ''00-1'')] \<and>
   (case preprocess midnight_export of
      Inl e \<Rightarrow> None
    | Inr (df, errs) \<Rightarrow> Some (map (\<lambda>r. (hour r, period r)) df)) \<noteq> Some [(0, ''00-01'')]"
  by (simp add: midnight_preprocess) (simp add: midnight_rows_def)

lemma quoted_marker_media:
  "str_contains media_pattern ''see <media omitted> above''"
  by (simp add: str_contains_def media_pattern_def eval_re)

text \<open>
  C5 as stated fails: a text that only contains the marker is counted as a media
  message.
\<close>

theorem media_counterexample:
  "(case preprocess quoted_marker_export of
      Inl e \<Rightarrow> None
    | Inr (df, errs) \<Rightarrow> Some (map message df, fst (snd (snd (fetch_stats ''Overall'' df))))) =
     Some ([''see <media omitted> above''], 1) \<and>
   str_lower ''see <media omitted> above'' \<noteq> str_lower ''<Media omitted>''"
  by (simp add: quoted_marker_preprocess) 
     (simp add: quoted_marker_rows_def fetch_stats_def Let_def quoted_marker_media str_lower_def)

text \<open>
  C6 fails on the code. For the empty text \<open>preprocess\<close> raises \<open>AttributeError\<close>: no
  timestamp is found, the column \<open>date\<close> is made from the empty list, and \<open>.dt\<close> on it
  raises. (The aggregates do return their empty forms on an empty data frame.)
\<close>

theorem empty_export_raises:
  "preprocess [] = Inl AttributeError \<and>
   fetch_stats u [] = (0, 0, 0, 0) \<and>
   most_busy_users [] = ([], []) \<and>
   create_wordcloud sf u [] = Cloud ''No meaningful words found'' \<and>
   most_common_words sf u [] = [] \<and>
   emoji_helper ed u [] = [] \<and>
   monthly_timeline u [] = [] \<and>
   daily_timeline u [] = [] \<and>
   week_activity_map u [] = map (\<lambda>d. (d, NaN)) day_order \<and>
   month_activity_map u [] = map (\<lambda>d. (d, NaN)) month_order \<and>
   activity_heatmap u [] = \<lparr>hm_columns = [], hm_rows = map (\<lambda>d. (d, [])) day_order\<rparr>"
proof -
  have "preprocess [] = Inl AttributeError"
    by (simp add: preprocess_def eval_scan re_split_def re_findall_def)
  moreover have "most_common_words sf u [] = []"
    by (cases sf) (simp_all add: most_common_words_def most_common_def counter_def first_seen_def)
  moreover have "create_wordcloud sf u [] = Cloud ''No meaningful words found''"
    by (simp add: create_wordcloud_def py_strip_def)
  ultimately show ?thesis
    by (simp add: fetch_stats_def most_busy_users_def emoji_helper_def monthly_timeline_def
        daily_timeline_def week_activity_map_def month_activity_map_def activity_heatmap_def
        value_counts_def counter_def first_seen_def group_count_def reindex_def pivot_table_def
        fillna_def)
qed



end
